theory Spec2Isabelle
  imports Complex_Main "HOL-Library.Product_Lexorder" "HOL-Library.Multiset"
begin

section \<open>Text helpers used by TorFleet.py\<close>

text \<open>
  Python strings are modelled as \<^typ>\<open>string\<close> over ASCII. The helpers below are the
  string methods the source calls: \<open>str.strip\<close>, \<open>str.split(sep)\<close>, \<open>str.lower\<close>,
  \<open>str.upper\<close>, \<open>str.startswith\<close>, the \<open>in\<close> substring test, and the decimal
  rendering of an integer inside an f-string.
\<close>

abbreviation NL :: char where
  "NL \<equiv> CHR 0x0A"

definition is_space :: "char \<Rightarrow> bool" where
  "is_space c = (c \<in> set [CHR 0x09, CHR 0x0A, CHR 0x0B, CHR 0x0C, CHR 0x0D,
                            CHR 0x1C, CHR 0x1D, CHR 0x1E, CHR 0x1F, CHR 0x20])"

definition strip :: "string \<Rightarrow> string" where
  "strip s = rev (dropWhile is_space (rev (dropWhile is_space s)))"

text \<open>\<open>s.split(sep)\<close> for a one-character separator: n separators give n + 1 pieces.\<close>

fun split_chr :: "char \<Rightarrow> string \<Rightarrow> string list" where
  "split_chr sep [] = [[]]"
| "split_chr sep (c # cs) =
     (if c = sep then [] # split_chr sep cs
      else (case split_chr sep cs of
              [] \<Rightarrow> [[c]]
            | w # ws \<Rightarrow> (c # w) # ws))"

definition lower_chr :: "char \<Rightarrow> char" where
  "lower_chr c = (let n = (of_char c :: nat) in if 65 \<le> n \<and> n \<le> 90 then char_of (n + 32) else c)"

definition upper_chr :: "char \<Rightarrow> char" where
  "upper_chr c = (let n = (of_char c :: nat) in if 97 \<le> n \<and> n \<le> 122 then char_of (n - 32) else c)"

definition lower :: "string \<Rightarrow> string" where
  "lower s = map lower_chr s"

definition upper :: "string \<Rightarrow> string" where
  "upper s = map upper_chr s"

fun startswith :: "string \<Rightarrow> string \<Rightarrow> bool" where
  "startswith s [] = True"
| "startswith [] (p # ps) = False"
| "startswith (c # cs) (p # ps) = (c = p \<and> startswith cs ps)"

text \<open>\<open>contains s p\<close> is Python's \<open>p in s\<close>.\<close>

fun contains :: "string \<Rightarrow> string \<Rightarrow> bool" where
  "contains [] p = (p = [])"
| "contains (c # cs) p = (startswith (c # cs) p \<or> contains cs p)"

fun str_nat :: "nat \<Rightarrow> string" where
  "str_nat n = (if n < 10 then [char_of (48 + n)]
                else str_nat (n div 10) @ [char_of (48 + n mod 10)])"

declare str_nat.simps [simp del]

definition str_int :: "int \<Rightarrow> string" where
  "str_int i = (if i < 0 then CHR ''-'' # str_nat (nat (- i)) else str_nat (nat i))"


section \<open>Data model\<close>

text \<open>
  A JSON value as far as the source looks at it: a string, or anything else (number,
  null, list, object), on which \<open>.upper()\<close> raises.
\<close>

datatype jval = JStr string | JOther

text \<open>The dict appended to \<open>results\<close> in \<open>find_fastest_ip_for_instance\<close>.\<close>

record result =
  r_ip :: string
  r_country :: string
  r_city :: jval
  r_ping :: int
  r_speed :: rat

text \<open>
  Class \<open>TorInstance\<close>. Fields that start as Python \<open>None\<close> are options. A float of
  the source (a speed, a duration) is the rational value of a finite double.
\<close>

record tor_instance =
  name :: string
  country :: string
  port :: int
  data_dir :: string
  torrc :: string
  ip :: "string option"
  city :: "jval option"
  ping :: "int option"
  speed :: "rat option"
  bridge_type :: "string option"
  bridge_count :: nat
  best_results :: "result list"


section \<open>Bridge parsing\<close>

definition detect_bridge_type :: "string \<Rightarrow> string option" where
  "detect_bridge_type bridge_line =
     (if bridge_line = [] then None
      else (let bridge_lower = lower bridge_line in
        if contains bridge_lower ''obfs4'' then Some ''obfs4''
        else if contains bridge_lower ''snowflake'' then Some ''snowflake''
        else if contains bridge_lower ''meek-azure'' \<or> contains bridge_lower ''meek_lite''
          then Some ''meek-azure''
        else if contains bridge_lower ''webtunnel'' then Some ''webtunnel''
        else Some ''unknown''))"

text \<open>The list comprehension: the stripped, non-blank lines of the stripped input.\<close>

definition input_lines :: "string \<Rightarrow> string list" where
  "input_lines bridge_input =
     map strip (filter (\<lambda>line. strip line \<noteq> []) (split_chr NL (strip bridge_input)))"

definition with_bridge_prefix :: "string \<Rightarrow> string" where
  "with_bridge_prefix line = (if \<not> startswith line ''Bridge'' then ''Bridge '' @ line else line)"

text \<open>\<open>bridge_types.add\<close>: the set is kept as a duplicate-free list.\<close>

definition set_add :: "string \<Rightarrow> string list \<Rightarrow> string list" where
  "set_add x xs = (if x \<in> set xs then xs else xs @ [x])"

text \<open>The \<open>for line in lines\<close> loop, with both accumulators.\<close>

fun bridge_loop :: "string list \<Rightarrow> string list \<Rightarrow> string list \<Rightarrow> string list \<times> string list" where
  "bridge_loop [] bridge_lines bridge_types = (bridge_lines, bridge_types)"
| "bridge_loop (line # rest) bridge_lines bridge_types =
     (let line' = with_bridge_prefix line in
      bridge_loop rest (bridge_lines @ [line'])
        (case detect_bridge_type line' of
           None \<Rightarrow> bridge_types
         | Some t \<Rightarrow> set_add t bridge_types))"

text \<open>
  \<open>parse_bridge_input\<close>. Python's result \<open>(None, None)\<close> for blank input is \<open>None\<close> here.
  \<open>list(bridge_types)[0]\<close> reads the first element of a set of strings in hash order,
  which the source does not control: the parameter \<open>k\<close> chooses it, element
  \<open>k mod n\<close> of the n collected types.
\<close>

definition parse_bridge_input :: "nat \<Rightarrow> string \<Rightarrow> (string list \<times> string) option" where
  "parse_bridge_input k bridge_input =
     (if strip bridge_input = [] then None
      else (case bridge_loop (input_lines bridge_input) [] [] of
        (bridge_lines, bridge_types) \<Rightarrow>
          if length bridge_types = 1 then Some (bridge_lines, bridge_types ! 0)
          else if length bridge_types > 1
            then Some (bridge_lines, bridge_types ! (k mod length bridge_types))
          else Some (bridge_lines, ''unknown'')))"


section \<open>Configuration text\<close>

text \<open>
  The text that \<open>create_torrc\<close> builds in \<open>config\<close> and writes to \<open>inst.torrc\<close>.
  \<open>circuit_period\<close> is the value drawn by \<open>random.randint(15, 45)\<close>.
\<close>

definition torrc_config ::
  "tor_instance \<Rightarrow> bool \<Rightarrow> (string list \<times> string) option \<Rightarrow> int \<Rightarrow> string" where
  "torrc_config inst use_bridges bridge_data circuit_period =
     (let config = ''SocksPort '' @ str_int (port inst) @ [NL]
                 @ ''DataDirectory '' @ data_dir inst @ [NL];
          config =
            (case (use_bridges, bridge_data) of
               (True, Some (bridge_lines, btype)) \<Rightarrow>
                 (let config = config @ ''UseBridges 1'' @ [NL];
                      config =
                        (if btype = ''obfs4''
                           then config @ ''ClientTransportPlugin obfs4 exec /usr/bin/obfs4proxy'' @ [NL]
                         else if btype = ''snowflake''
                           then config @ ''ClientTransportPlugin snowflake exec /usr/bin/snowflake-client'' @ [NL]
                         else if btype = ''meek-azure''
                           then config @ ''ClientTransportPlugin meek_lite exec /usr/bin/meek-client'' @ [NL]
                         else if btype = ''webtunnel''
                           then config @ ''ClientTransportPlugin webtunnel exec /usr/bin/webtunnel-client'' @ [NL]
                         else config)
                  in foldl (\<lambda>config bridge. config @ bridge @ [NL]) config bridge_lines)
             | _ \<Rightarrow> config)
      in config
         @ ''ExitNodes {'' @ country inst @ ''}'' @ [NL]
         @ ''StrictNodes 1'' @ [NL]
         @ ''NewCircuitPeriod '' @ str_int circuit_period @ [NL]
         @ ''MaxCircuitDirtiness 300'' @ [NL]
         @ ''CircuitBuildTimeout '' @ (if use_bridges then ''120'' else ''60'') @ [NL]
         @ ''LearnCircuitBuildTimeout 0'' @ [NL]
         @ ''NumEntryGuards 3'' @ [NL]
         @ ''UseEntryGuards 1'' @ [NL])"

text \<open>
  A directive of the configuration is a line whose first word is the keyword.
\<close>

definition directives :: "string \<Rightarrow> string \<Rightarrow> string list" where
  "directives keyword config =
     filter (\<lambda>line. startswith line (keyword @ '' '')) (split_chr NL config)"


section \<open>The environment\<close>

text \<open>
  Everything the program observes from outside is an answer of the \<open>world\<close>: what an
  HTTP GET gives, whether \<open>pgrep\<close> finds the process, what the random generator draws.
  The program is sequential, so an answer is indexed by a logical clock: the number of
  effects the run has performed so far. Each function takes the clock \<open>t\<close> at its start
  and returns, next to its value, the list of effects it performed.
\<close>

record response =
  status_code :: int
  resp_text :: string
  content_len :: nat
  json :: "(string \<Rightarrow> jval option) option"

text \<open>
  \<open>resp_text\<close> is \<open>r.text\<close>, \<open>content_len\<close> is \<open>len(response.content)\<close>, and \<open>json\<close> is
  what \<open>.json()\<close> gives: \<open>None\<close> when it raises or the value is no JSON object (on which
  \<open>.get\<close> raises). A request either raises (timeout, connection error) or responds; the
  rational is the exact difference, in seconds, of the two clock readings that the source
  takes around it. The source holds the difference as a double.
\<close>

datatype outcome = Raised | Responded response rat

datatype event =
    HttpGet string "int option"
  | Shell string
  | Sleep nat
  | MkDir string
  | WriteFile string string

record world =
  http_get :: "nat \<Rightarrow> string \<Rightarrow> int option \<Rightarrow> outcome"
  pgrep :: "nat \<Rightarrow> string \<Rightarrow> bool"
  randint :: "nat \<Rightarrow> nat"

text \<open>\<open>after es p\<close>: the effects \<open>es\<close> happened before those of the computation \<open>p\<close>.\<close>

definition after :: "event list \<Rightarrow> 'a \<times> event list \<Rightarrow> 'a \<times> event list" where
  "after es p = (fst p, es @ snd p)"

text \<open>Python's \<open>int(x)\<close> on a float truncates towards zero.\<close>

definition py_int :: "rat \<Rightarrow> int" where
  "py_int x = (if 0 \<le> x then \<lfloor>x\<rfloor> else \<lceil>x\<rceil>)"

text \<open>
  Floats. Python's float is the IEEE binary64 double, and every operation on doubles
  gives the double nearest to the exact result, ties to the even significand. \<open>fl x\<close> is
  that double for a rational \<open>x\<close>: a multiple of \<open>2 ^ e\<close>, where \<open>e\<close> leaves 53 bits to the
  significand and is at least -1074, the exponent of the subnormal doubles. A result
  of magnitude \<open>2 ^ 1024\<close> or more is \<open>inf\<close> in Python; the model has no \<open>inf\<close>, and what
  is proved about float results is proved of results below that magnitude.
\<close>

function bit_length :: "int \<Rightarrow> nat" where
  "bit_length n = (if n \<le> 0 then 0 else Suc (bit_length (n div 2)))"
  by pat_completeness auto
termination
  by (relation "measure nat") auto

declare bit_length.simps [simp del]

definition pow2 :: "int \<Rightarrow> rat" where
  "pow2 k = (if 0 \<le> k then 2 ^ nat k else 1 / 2 ^ nat (- k))"

text \<open>\<open>floor_log2 a\<close>, for positive \<open>a\<close>: the \<open>k\<close> with \<open>2 ^ k \<le> a < 2 ^ (k + 1)\<close>.\<close>

definition floor_log2 :: "rat \<Rightarrow> int" where
  "floor_log2 a =
     (case quotient_of a of
        (p, q) \<Rightarrow>
          (let k = int (bit_length p) - int (bit_length q)
           in if pow2 k \<le> a then k else k - 1))"

definition round_half_even :: "rat \<Rightarrow> int" where
  "round_half_even x =
     (let f = \<lfloor>x\<rfloor>; d = x - of_int f in
      if d < 1 / 2 then f
      else if 1 / 2 < d then f + 1
      else if even f then f else f + 1)"

definition fl :: "rat \<Rightarrow> rat" where
  "fl x =
     (if x = 0 then 0
      else (let a = \<bar>x\<bar>;
                e = max (floor_log2 a - 52) (- 1074);
                m = of_int (round_half_even (a / pow2 e)) * pow2 e
            in if x < 0 then - m else m))"

text \<open>The float operations of the source, on the values of doubles.\<close>

definition fadd :: "rat \<Rightarrow> rat \<Rightarrow> rat" where
  "fadd x y = fl (x + y)"

definition fmul :: "rat \<Rightarrow> rat \<Rightarrow> rat" where
  "fmul x y = fl (x * y)"

definition fdiv :: "rat \<Rightarrow> rat \<Rightarrow> rat" where
  "fdiv x y = fl (x / y)"

text \<open>
  Python's \<open>round(x, ndigits)\<close> on a float: the exact value of \<open>x\<close> is rounded to the
  nearest multiple of \<open>10 ^ -ndigits\<close>, ties to the even one, and the result is the double
  nearest to that decimal.
\<close>

definition py_round :: "rat \<Rightarrow> nat \<Rightarrow> rat" where
  "py_round x ndigits = fl (of_int (round_half_even (x * 10 ^ ndigits)) / 10 ^ ndigits)"


section \<open>Identity resolution\<close>

definition ip_services :: "string list" where
  "ip_services =
     [''http://api.ipify.org'',
      ''http://checkip.amazonaws.com'',
      ''http://icanhazip.com'',
      ''http://ipecho.net/plain'',
      ''http://myexternalip.com/raw'']"

record location_service =
  url :: string
  country_key :: string
  city_key :: string

definition location_services :: "location_service list" where
  "location_services =
     [\<lparr> url = ''http://ip-api.com/json/{ip}'', country_key = ''countryCode'', city_key = ''city'' \<rparr>,
      \<lparr> url = ''https://ipapi.co/{ip}/json/'', country_key = ''country_code'', city_key = ''city'' \<rparr>,
      \<lparr> url = ''http://ipwho.is/{ip}'', country_key = ''country_code'', city_key = ''city'' \<rparr>,
      \<lparr> url = ''http://www.geoplugin.net/json.gp?ip={ip}'',
        country_key = ''geoplugin_countryCode'', city_key = ''geoplugin_city'' \<rparr>]"

text \<open>\<open>template.format(ip=ip)\<close>: every \<open>{ip}\<close> of the template becomes the address.\<close>

fun format_ip :: "string \<Rightarrow> string \<Rightarrow> string" where
  "format_ip [] a = []"
| "format_ip (c # cs) a =
     (if startswith (c # cs) ''{ip}'' then a @ format_ip (drop 3 cs) a
      else c # format_ip cs a)"

text \<open>
  The first loop of \<open>get_ip_and_location\<close>. \<open>ip0\<close> and \<open>ping_time\<close> are the loop-carried
  variables \<open>ip\<close> and \<open>ping_time\<close>: a response assigns both before the validity test, a
  raised exception leaves both as they were. \<open>fl elapsed\<close> is the double
  \<open>time.time() - start_time\<close>.
\<close>

fun ip_loop ::
  "world \<Rightarrow> int \<Rightarrow> nat \<Rightarrow> string list \<Rightarrow> string option \<Rightarrow> int
     \<Rightarrow> (string option \<times> int) \<times> event list" where
  "ip_loop W prt t [] ip0 ping_time = ((ip0, ping_time), [])"
| "ip_loop W prt t (service # rest) ip0 ping_time =
     (case http_get W t service (Some prt) of
        Raised \<Rightarrow>
          after [HttpGet service (Some prt)] (ip_loop W prt (t + 1) rest ip0 ping_time)
      | Responded r elapsed \<Rightarrow>
          (let ping_time' = py_int (fmul (fl elapsed) 1000);
               ip' = strip (resp_text r)
           in if ip' \<noteq> [] \<and> length (split_chr (CHR ''.'') ip') = 4
              then ((Some ip', ping_time'), [HttpGet service (Some prt)])
              else after [HttpGet service (Some prt)]
                     (ip_loop W prt (t + 1) rest (Some ip') ping_time')))"

text \<open>
  The body of the \<open>try\<close> in the second loop: \<open>Some (country, city)\<close> when the iteration
  returns, \<open>None\<close> when it falls through or an exception sends it to \<open>continue\<close>.
\<close>

definition location_answer :: "location_service \<Rightarrow> outcome \<Rightarrow> (string \<times> jval) option" where
  "location_answer service out =
     (case out of
        Raised \<Rightarrow> None
      | Responded location_r elapsed \<Rightarrow>
          if status_code location_r = 200 then
            (case json location_r of
               None \<Rightarrow> None
             | Some location_data \<Rightarrow>
                 (case (case location_data (country_key service) of
                          None \<Rightarrow> Some []
                        | Some (JStr s) \<Rightarrow> Some (upper s)
                        | Some JOther \<Rightarrow> None) of
                    None \<Rightarrow> None
                  | Some cc \<Rightarrow>
                      (let cty = (case location_data (city_key service) of
                                    None \<Rightarrow> JStr ''Unknown''
                                  | Some v \<Rightarrow> v)
                       in if cc \<noteq> [] \<and> length cc = 2 then Some (cc, cty) else None)))
          else None)"

fun location_loop ::
  "world \<Rightarrow> nat \<Rightarrow> location_service list \<Rightarrow> string \<Rightarrow> int
     \<Rightarrow> (string option \<times> string \<times> jval \<times> int) \<times> event list" where
  "location_loop W t [] a ping_time = ((Some a, ''Unknown'', JStr ''Unknown'', ping_time), [])"
| "location_loop W t (service # rest) a ping_time =
     (let u = format_ip (url service) a in
      case location_answer service (http_get W t u None) of
        Some (cc, cty) \<Rightarrow> ((Some a, cc, cty, ping_time), [HttpGet u None])
      | None \<Rightarrow> after [HttpGet u None] (location_loop W (t + 1) rest a ping_time))"

definition get_ip_and_location ::
  "world \<Rightarrow> int \<Rightarrow> nat \<Rightarrow> (string option \<times> string \<times> jval \<times> int) \<times> event list" where
  "get_ip_and_location W prt t =
     (case ip_loop W prt t ip_services None 9999 of
        ((ip0, ping_time), es) \<Rightarrow>
          (case ip0 of
             None \<Rightarrow> ((None, ''Error'', JStr ''No IP'', 9999), es)
           | Some a \<Rightarrow>
               if a = [] then ((None, ''Error'', JStr ''No IP'', 9999), es)
               else after es (location_loop W (t + length es) location_services a ping_time)))"


section \<open>Throughput measurement\<close>

definition test_data :: "(string \<times> nat) list" where
  "test_data =
     [(''http://httpbin.org/bytes/50000'', 50000),
      (''http://httpbin.org/bytes/25000'', 25000),
      (''http://speedtest.ftp.otenet.gr/files/test100k.db'', 100000)]"

text \<open>
  The download loop of \<open>test_speed\<close>: \<open>Some mbps\<close> when an iteration returns, \<open>None\<close>
  when the list is exhausted. The division converts the integer \<open>bits_downloaded\<close> to a
  double first.
\<close>

fun download_loop ::
  "world \<Rightarrow> int \<Rightarrow> nat \<Rightarrow> (string \<times> nat) list \<Rightarrow> rat option \<times> event list" where
  "download_loop W prt t [] = (None, [])"
| "download_loop W prt t ((test_url, expected_size) # rest) =
     (case http_get W t test_url (Some prt) of
        Raised \<Rightarrow> after [HttpGet test_url (Some prt)] (download_loop W prt (t + 1) rest)
      | Responded r elapsed \<Rightarrow>
          if status_code r = 200 then
            (let download_time = fl elapsed;
                 actual_size = content_len r in
             if 0 < download_time \<and> 1000 < actual_size
             then (let bits_downloaded = actual_size * 8;
                       mbps = fdiv (fl (of_nat bits_downloaded)) (fmul download_time 1000000)
                   in (Some (py_round mbps 2), [HttpGet test_url (Some prt)]))
             else after [HttpGet test_url (Some prt)] (download_loop W prt (t + 1) rest))
          else after [HttpGet test_url (Some prt)] (download_loop W prt (t + 1) rest))"

definition status_url :: string where
  "status_url = ''http://httpbin.org/status/200''"

text \<open>
  The \<open>for i in range(3)\<close> loop of the fallback, which sits inside one \<open>try\<close>: a request
  that raises ends the whole fallback (\<open>None\<close>), a response that is not 200 is skipped.
\<close>

fun ping_loop ::
  "world \<Rightarrow> int \<Rightarrow> nat \<Rightarrow> nat \<Rightarrow> rat list \<Rightarrow> rat list option \<times> event list" where
  "ping_loop W prt t 0 ping_times = (Some ping_times, [])"
| "ping_loop W prt t (Suc n) ping_times =
     (case http_get W t status_url (Some prt) of
        Raised \<Rightarrow> (None, [HttpGet status_url (Some prt)])
      | Responded r elapsed \<Rightarrow>
          after [HttpGet status_url (Some prt)]
            (ping_loop W prt (t + 1) n
               (if status_code r = 200 then ping_times @ [fmul (fl elapsed) 1000]
                else ping_times)))"

text \<open>
  The fallback. \<open>sum\<close> adds the doubles from left to right, starting from 0 (from
  Python 3.12 on it compensates the rounding errors, which can change the last bit of
  the sum). A zero \<open>avg_ping / 100\<close> makes the division raise \<open>ZeroDivisionError\<close>, which
  the bare \<open>except\<close> swallows like any other exception.
\<close>

definition fallback_speed :: "world \<Rightarrow> int \<Rightarrow> nat \<Rightarrow> rat \<times> event list" where
  "fallback_speed W prt t =
     (case ping_loop W prt t 3 [] of
        (None, es) \<Rightarrow> (0, es)
      | (Some ping_times, es) \<Rightarrow>
          if ping_times \<noteq> [] then
            (let avg_ping = fdiv (foldl fadd 0 ping_times) (of_nat (length ping_times)) in
             if fdiv avg_ping 100 = 0 then (0, es)
             else (let estimated_mbps = max (fl (1 / 10)) (fdiv 10 (fdiv avg_ping 100))
                   in (py_round estimated_mbps 1, es)))
          else (0, es))"

definition test_speed :: "world \<Rightarrow> int \<Rightarrow> nat \<Rightarrow> rat \<times> event list" where
  "test_speed W prt t =
     (case download_loop W prt t test_data of
        (Some mbps, es) \<Rightarrow> (mbps, es)
      | (None, es) \<Rightarrow> after es (fallback_speed W prt (t + length es)))"


section \<open>Process control and one probe attempt\<close>

definition stop_instance :: "tor_instance \<Rightarrow> event list" where
  "stop_instance inst =
     [Shell (''pkill -f '' @ [CHR 0x27] @ ''tor -f '' @ torrc inst @ [CHR 0x27]), Sleep 2]"

definition check_instance_running :: "world \<Rightarrow> tor_instance \<Rightarrow> nat \<Rightarrow> bool \<times> event list" where
  "check_instance_running W inst t =
     (pgrep W t (torrc inst),
      [Shell (''pgrep -f '' @ [CHR 0x27] @ ''tor -f '' @ torrc inst @ [CHR 0x27])])"

text \<open>
  \<open>create_torrc\<close> with its effects: the draw of \<open>circuit_period\<close> in 15..45, the
  directory, and the file written with the configuration text.
\<close>

definition create_torrc ::
  "world \<Rightarrow> (string list \<times> string) option \<Rightarrow> tor_instance \<Rightarrow> bool \<Rightarrow> nat \<Rightarrow> event list" where
  "create_torrc W bridge_data inst use_bridges t =
     (let circuit_period = 15 + int (randint W t mod 31) in
      [MkDir (data_dir inst),
       WriteFile (torrc inst) (torrc_config inst use_bridges bridge_data circuit_period)])"

definition wait_time :: "(string list \<times> string) option \<Rightarrow> bool \<Rightarrow> nat" where
  "wait_time bridge_data use_bridges =
     (case (use_bridges, bridge_data) of
        (True, Some (bridge_lines, btype)) \<Rightarrow> if btype = ''obfs4'' then 30 else 20
      | _ \<Rightarrow> 20)"

text \<open>Everything an attempt does before it probes: stop, configure, clean, start, wait.\<close>

definition launch ::
  "world \<Rightarrow> (string list \<times> string) option \<Rightarrow> tor_instance \<Rightarrow> bool \<Rightarrow> nat \<Rightarrow> event list" where
  "launch W bridge_data inst use_bridges t =
     stop_instance inst
     @ create_torrc W bridge_data inst use_bridges (t + 2)
     @ [Shell (''rm -rf '' @ data_dir inst @ ''/cached-*''),
        Shell (''rm -rf '' @ data_dir inst @ ''/state''),
        Shell (''tor -f '' @ torrc inst),
        Sleep (wait_time bridge_data use_bridges)]"

text \<open>
  The body of the \<open>for attempt in range(max_attempts)\<close> loop: \<open>results\<close> goes in and
  comes out, extended by one dict only in the branch that measured the speed.
\<close>

definition attempt ::
  "world \<Rightarrow> (string list \<times> string) option \<Rightarrow> tor_instance \<Rightarrow> bool \<Rightarrow> nat \<Rightarrow> result list
     \<Rightarrow> result list \<times> event list" where
  "attempt W bridge_data inst use_bridges t results =
     (let es1 = launch W bridge_data inst use_bridges t in
      case get_ip_and_location W (port inst) (t + length es1) of
        ((ip0, country0, city0, ping0), es2) \<Rightarrow>
          (case ip0 of
             Some a \<Rightarrow>
               if a \<noteq> [] \<and> country0 = country inst then
                 (case test_speed W (port inst) (t + length es1 + length es2) of
                    (speed0, es3) \<Rightarrow>
                      (results @ [\<lparr> r_ip = a, r_country = country0, r_city = city0,
                                    r_ping = ping0, r_speed = speed0 \<rparr>],
                       es1 @ es2 @ es3 @ [Sleep 2]))
               else (results, es1 @ es2 @ [Sleep 2])
           | None \<Rightarrow> (results, es1 @ es2 @ [Sleep 2])))"

fun attempts_loop ::
  "world \<Rightarrow> (string list \<times> string) option \<Rightarrow> tor_instance \<Rightarrow> bool \<Rightarrow> nat \<Rightarrow> nat \<Rightarrow> result list
     \<Rightarrow> result list \<times> event list" where
  "attempts_loop W bridge_data inst use_bridges 0 t results = (results, [])"
| "attempts_loop W bridge_data inst use_bridges (Suc n) t results =
     (case attempt W bridge_data inst use_bridges t results of
        (results', es) \<Rightarrow>
          after es (attempts_loop W bridge_data inst use_bridges n (t + length es) results'))"

text \<open>
  \<open>max(results, key=lambda x: x.get('speed', 0))\<close>: the first element whose speed no
  other element exceeds; \<open>best\<close> is the candidate so far.
\<close>

fun max_speed :: "result \<Rightarrow> result list \<Rightarrow> result" where
  "max_speed best [] = best"
| "max_speed best (x # xs) = max_speed (if r_speed best < r_speed x then x else best) xs"

text \<open>
  \<open>find_fastest_ip_for_instance\<close> returns \<open>best\<close> or \<open>None\<close>, and the instance as the call
  leaves it. \<open>range(max_attempts)\<close> of a non-positive number is empty.
\<close>

definition find_fastest_ip_for_instance ::
  "world \<Rightarrow> (string list \<times> string) option \<Rightarrow> tor_instance \<Rightarrow> bool \<Rightarrow> int \<Rightarrow> nat
     \<Rightarrow> (result option \<times> tor_instance) \<times> event list" where
  "find_fastest_ip_for_instance W bridge_data inst use_bridges max_attempts t =
     (case attempts_loop W bridge_data inst use_bridges (nat max_attempts) t [] of
        (results, es) \<Rightarrow>
          (case results of
             [] \<Rightarrow> ((None, inst), es)
           | r # rs \<Rightarrow>
               (let best = max_speed r rs in
                ((Some best,
                  inst\<lparr> ip := Some (r_ip best), city := Some (r_city best),
                        ping := Some (r_ping best), speed := Some (r_speed best),
                        best_results := results \<rparr>), es))))"


section \<open>Fleet orchestration\<close>

text \<open>
  \<open>self.instances\<close> is a dict in insertion order: a list of (name, instance) pairs. An
  entry of \<open>successful\<close> is the name, the instance and the best result.
\<close>

type_synonym entry = "string \<times> tor_instance \<times> result"

fun instances_loop ::
  "world \<Rightarrow> (string list \<times> string) option \<Rightarrow> bool \<Rightarrow> int \<Rightarrow> (string \<times> tor_instance) list \<Rightarrow> nat
     \<Rightarrow> (entry list \<times> (string \<times> tor_instance) list) \<times> event list" where
  "instances_loop W bridge_data use_bridges attempts [] t = (([], []), [])"
| "instances_loop W bridge_data use_bridges attempts ((nm, inst) # rest) t =
     (case find_fastest_ip_for_instance W bridge_data inst use_bridges attempts t of
        ((res, inst'), es) \<Rightarrow>
          (case instances_loop W bridge_data use_bridges attempts rest (t + length es) of
             ((successful, insts'), es') \<Rightarrow>
               (((case res of
                    None \<Rightarrow> successful
                  | Some best \<Rightarrow> (nm, inst', best) # successful),
                 (nm, inst') # insts'),
                es @ es')))"

definition entry_key :: "entry \<Rightarrow> rat \<times> int" where
  "entry_key x = (case x of (nm, inst, r) \<Rightarrow> (- r_speed r, r_ping r))"

text \<open>
  \<open>start_all_instances_with_best_ips\<close>: the sorted list \<open>successful\<close>, the instances as
  the run leaves them, and the effects. \<open>list.sort\<close> is a stable sort on the key.
\<close>

definition start_all_instances_with_best_ips ::
  "world \<Rightarrow> (string list \<times> string) option \<Rightarrow> int \<Rightarrow> (string \<times> tor_instance) list \<Rightarrow> nat
     \<Rightarrow> (entry list \<times> (string \<times> tor_instance) list) \<times> event list" where
  "start_all_instances_with_best_ips W bridge_data attempts_per_country instances t =
     (if instances = [] then (([], instances), [])
      else (let use_bridges = (bridge_data \<noteq> None) in
        case instances_loop W bridge_data use_bridges attempts_per_country instances t of
          ((successful, insts'), es) \<Rightarrow> ((sort_key entry_key successful, insts'), es)))"

text \<open>
  The body of the loop of \<open>test_all_instances\<close>: a running instance whose resolution
  gives an address is measured and overwritten. \<open>Some\<close> is the instance as appended to
  \<open>results\<close>, \<open>None\<close> says that nothing was appended and the instance is unchanged.
\<close>

definition test_instance ::
  "world \<Rightarrow> tor_instance \<Rightarrow> nat \<Rightarrow> tor_instance option \<times> event list" where
  "test_instance W inst t =
     (case check_instance_running W inst t of
        (running, es0) \<Rightarrow>
          if running then
            (case get_ip_and_location W (port inst) (t + length es0) of
               ((ip0, country0, city0, ping0), es1) \<Rightarrow>
                 (case ip0 of
                    Some a \<Rightarrow>
                      if a \<noteq> [] then
                        (case test_speed W (port inst) (t + length es0 + length es1) of
                           (speed0, es2) \<Rightarrow>
                             (Some (inst\<lparr> ip := Some a, city := Some city0,
                                           ping := Some ping0, speed := Some speed0 \<rparr>),
                              es0 @ es1 @ es2))
                      else (None, es0 @ es1)
                  | None \<Rightarrow> (None, es0 @ es1)))
          else (None, es0))"

fun test_loop ::
  "world \<Rightarrow> (string \<times> tor_instance) list \<Rightarrow> nat
     \<Rightarrow> (tor_instance list \<times> (string \<times> tor_instance) list) \<times> event list" where
  "test_loop W [] t = (([], []), [])"
| "test_loop W ((nm, inst) # rest) t =
     (case test_instance W inst t of
        (tested, es) \<Rightarrow>
          (case test_loop W rest (t + length es) of
             ((results, insts'), es') \<Rightarrow>
               (((case tested of None \<Rightarrow> results | Some inst' \<Rightarrow> inst' # results),
                 (nm, (case tested of None \<Rightarrow> inst | Some inst' \<Rightarrow> inst')) # insts'),
                es @ es')))"

text \<open>
  The key of \<open>results.sort(key=lambda x: (-x.speed, x.ping))\<close>. Every instance in
  \<open>results\<close> had both fields assigned just before it was appended; on \<open>None\<close> the
  negation would raise.
\<close>

definition inst_key :: "tor_instance \<Rightarrow> rat \<times> int" where
  "inst_key x = (- (case speed x of Some s \<Rightarrow> s | None \<Rightarrow> 0),
                 (case ping x of Some p \<Rightarrow> p | None \<Rightarrow> 0))"

definition test_all_instances ::
  "world \<Rightarrow> (string \<times> tor_instance) list \<Rightarrow> nat
     \<Rightarrow> (tor_instance list \<times> (string \<times> tor_instance) list) \<times> event list" where
  "test_all_instances W instances t =
     (case test_loop W instances t of
        ((results, insts'), es) \<Rightarrow>
          ((if results \<noteq> [] then sort_key inst_key results else results, insts'), es))"

section \<open>Notions used by the properties\<close>

text \<open>The results that the attempts of one call of \<open>find_fastest_ip_for_instance\<close> collect.\<close>

definition collected ::
  "world \<Rightarrow> (string list \<times> string) option \<Rightarrow> tor_instance \<Rightarrow> bool \<Rightarrow> int \<Rightarrow> nat
     \<Rightarrow> result list" where
  "collected W bridge_data inst use_bridges max_attempts t =
     fst (attempts_loop W bridge_data inst use_bridges (nat max_attempts) t [])"

text \<open>
  A list of (throughput, latency) pairs is ranked when every adjacent pair a, b has
  a faster than b, or as fast as b and with no more latency.
\<close>

fun ranked :: "(rat \<times> int) list \<Rightarrow> bool" where
  "ranked (a # b # xs) =
     ((fst b < fst a \<or> (fst a = fst b \<and> snd a \<le> snd b)) \<and> ranked (b # xs))"
| "ranked xs = True"

text \<open>The (throughput, latency) pair an instance carries, once both fields are set.\<close>

definition observed :: "tor_instance \<Rightarrow> (rat \<times> int) option" where
  "observed x = (case (speed x, ping x) of (Some s, Some p) \<Rightarrow> Some (s, p) | _ \<Rightarrow> None)"



text \<open>An address service that gives nothing: the request raises or the text is blank.\<close>

definition blank_reply :: "outcome \<Rightarrow> bool" where
  "blank_reply out =
     (case out of
        Raised \<Rightarrow> True
      | Responded r elapsed \<Rightarrow> strip (resp_text r) = [])"

text \<open>
  An answer of a geolocation service that is an HTTP success carrying a two-letter
  country code under the key configured for the service.
\<close>

definition carries_country_code :: "location_service \<Rightarrow> outcome \<Rightarrow> bool" where
  "carries_country_code service out =
     (case out of
        Raised \<Rightarrow> False
      | Responded r elapsed \<Rightarrow>
          status_code r = 200 \<and>
          (case json r of
             None \<Rightarrow> False
           | Some location_data \<Rightarrow>
               (case location_data (country_key service) of
                  Some (JStr s) \<Rightarrow> length s = 2
                | _ \<Rightarrow> False)))"

text \<open>
  The requests that only \<open>test_speed\<close> makes: a GET through the proxy for one of the
  download URLs or for the status URL.
\<close>

definition speed_request :: "event \<Rightarrow> bool" where
  "speed_request e =
     (case e of
        HttpGet u (Some prt) \<Rightarrow> u \<in> set (map fst test_data) \<or> u = status_url
      | _ \<Rightarrow> False)"


text \<open>
  An answer to a download request that passes both tests of the download loop: HTTP
  success, a positive measured duration and more than 1000 bytes.
  \<open>transfer_finite\<close> says that every double the throughput computation forms from such an
  answer is finite.
\<close>

definition download_ok :: "outcome \<Rightarrow> bool" where
  "download_ok out =
     (case out of
        Raised \<Rightarrow> False
      | Responded r elapsed \<Rightarrow>
          status_code r = 200 \<and> 0 < fl elapsed \<and> 1000 < content_len r)"

definition finite_double :: "rat \<Rightarrow> bool" where
  "finite_double x = (\<bar>x\<bar> < 2 ^ 1024)"

definition transfer_finite :: "response \<Rightarrow> rat \<Rightarrow> bool" where
  "transfer_finite r elapsed =
     (finite_double (fl elapsed)
      \<and> finite_double (fl (of_nat (content_len r * 8)))
      \<and> finite_double (fmul (fl elapsed) 1000000)
      \<and> finite_double (fdiv (fl (of_nat (content_len r * 8))) (fmul (fl elapsed) 1000000)))"


text \<open>
  The line view of the configuration text: \<open>unlines\<close> ends every line with a newline,
  \<open>torrc_lines\<close> lists the lines that \<open>create_torrc\<close> appends, in order.
\<close>

definition unlines :: "string list \<Rightarrow> string" where
  "unlines ls = concat (map (\<lambda>l. l @ [NL]) ls)"

definition plugin_lines :: "string \<Rightarrow> string list" where
  "plugin_lines btype =
     (if btype = ''obfs4'' then [''ClientTransportPlugin obfs4 exec /usr/bin/obfs4proxy'']
      else if btype = ''snowflake'' then [''ClientTransportPlugin snowflake exec /usr/bin/snowflake-client'']
      else if btype = ''meek-azure'' then [''ClientTransportPlugin meek_lite exec /usr/bin/meek-client'']
      else if btype = ''webtunnel'' then [''ClientTransportPlugin webtunnel exec /usr/bin/webtunnel-client'']
      else [])"

definition bridge_section :: "bool \<Rightarrow> (string list \<times> string) option \<Rightarrow> string list" where
  "bridge_section use_bridges bridge_data =
     (case (use_bridges, bridge_data) of
        (True, Some (bridge_lines, btype)) \<Rightarrow> ''UseBridges 1'' # plugin_lines btype @ bridge_lines
      | _ \<Rightarrow> [])"

definition torrc_lines ::
  "tor_instance \<Rightarrow> bool \<Rightarrow> (string list \<times> string) option \<Rightarrow> int \<Rightarrow> string list" where
  "torrc_lines inst use_bridges bridge_data circuit_period =
     [''SocksPort '' @ str_int (port inst), ''DataDirectory '' @ data_dir inst]
     @ bridge_section use_bridges bridge_data
     @ [''ExitNodes {'' @ country inst @ ''}'',
        ''StrictNodes 1'',
        ''NewCircuitPeriod '' @ str_int circuit_period,
        ''MaxCircuitDirtiness 300'',
        ''CircuitBuildTimeout '' @ (if use_bridges then ''120'' else ''60''),
        ''LearnCircuitBuildTimeout 0'',
        ''NumEntryGuards 3'',
        ''UseEntryGuards 1'']"

text \<open>
  Bridge data as \<open>parse_bridge_input\<close> produces it: every line starts with \<open>Bridge\<close>
  and holds no newline.
\<close>

definition bridge_data_ok :: "(string list \<times> string) option \<Rightarrow> bool" where
  "bridge_data_ok bridge_data =
     (case bridge_data of
        None \<Rightarrow> True
      | Some (bridge_lines, btype) \<Rightarrow>
          list_all (\<lambda>l. startswith l ''Bridge'' \<and> NL \<notin> set l) bridge_lines)"


section \<open>Concrete runs\<close>

definition us_inst :: tor_instance where
  "us_inst = \<lparr> name = ''tor1'', country = ''US'', port = 9050, data_dir = ''/root/tor/tor1'',
               torrc = ''/root/tor/tor1/torrc.conf'', ip = None, city = None, ping = None,
               speed = None, bridge_type = None, bridge_count = 0, best_results = [] \<rparr>"

definition ok_resp :: "string \<Rightarrow> nat \<Rightarrow> (string \<Rightarrow> jval option) option \<Rightarrow> response" where
  "ok_resp txt n js = \<lparr> status_code = 200, resp_text = txt, content_len = n, json = js \<rparr>"

text \<open>
  A world in which the first address service answers 1.2.3.4, every geolocation service
  places it in the US, and the first download gives 62500 bytes, in one second before
  clock 20 and in half a second from then on.
\<close>

definition world_us :: world where
  "world_us =
     \<lparr> http_get = (\<lambda>t u p.
         if u = ''http://api.ipify.org'' then Responded (ok_resp ''1.2.3.4'' 7 None) (1 / 4)
         else if p = None then
           Responded (ok_resp [] 0
             (Some [''countryCode'' \<mapsto> JStr ''us'', ''city'' \<mapsto> JStr ''Dallas''])) (1 / 10)
         else if u = ''http://httpbin.org/bytes/50000'' then
           Responded (ok_resp [] 62500 None) (if t < 20 then 1 else 1 / 2)
         else Raised),
       pgrep = (\<lambda>t p. True),
       randint = (\<lambda>t. t) \<rparr>"


text \<open>
  A world in which the proxy path answers every request with an error page and direct
  requests fail.
\<close>

definition world_unavailable :: world where
  "world_unavailable =
     \<lparr> http_get = (\<lambda>t u p.
         if p = None then Raised
         else Responded \<lparr> status_code = 503, resp_text = ''Service Unavailable'',
                          content_len = 19, json = None \<rparr> (3 / 10)),
       pgrep = (\<lambda>t p. True),
       randint = (\<lambda>t. t) \<rparr>"

text \<open>
  A world like \<open>world_us\<close> whose exit is in France, at 5.6.7.8.
\<close>

definition world_fr :: world where
  "world_fr =
     \<lparr> http_get = (\<lambda>t u p.
         if u = ''http://api.ipify.org'' then Responded (ok_resp ''5.6.7.8'' 7 None) (1 / 4)
         else if p = None then
           Responded (ok_resp [] 0
             (Some [''countryCode'' \<mapsto> JStr ''FR'', ''city'' \<mapsto> JStr ''Paris''])) (1 / 10)
         else if u = ''http://httpbin.org/bytes/50000'' then
           Responded (ok_resp [] 62500 None) 1
         else Raised),
       pgrep = (\<lambda>t p. True),
       randint = (\<lambda>t. t) \<rparr>"

text \<open>
  Four worlds for the speed test. In \<open>world_third\<close> only the third download answers,
  with 100000 bytes in half a second. \<open>world_zero\<close> is the same with a measured
  duration of zero, and status checks that take 100 ms. In \<open>world_flaky\<close> every download
  raises, the first status check answers in 100 ms and the second raises. In
  \<open>world_pings\<close> every download raises and the three status checks take 100, 120 and
  110 ms.
\<close>

definition world_third :: world where
  "world_third =
     \<lparr> http_get = (\<lambda>t u p.
         if u = ''http://speedtest.ftp.otenet.gr/files/test100k.db''
         then Responded (ok_resp [] 100000 None) (1 / 2)
         else Raised),
       pgrep = (\<lambda>t p. True),
       randint = (\<lambda>t. t) \<rparr>"

definition world_zero :: world where
  "world_zero =
     \<lparr> http_get = (\<lambda>t u p.
         if u = ''http://speedtest.ftp.otenet.gr/files/test100k.db''
         then Responded (ok_resp [] 100000 None) 0
         else if u = ''http://httpbin.org/status/200''
         then Responded (ok_resp [] 0 None) (1 / 10)
         else Raised),
       pgrep = (\<lambda>t p. True),
       randint = (\<lambda>t. t) \<rparr>"

definition world_flaky :: world where
  "world_flaky =
     \<lparr> http_get = (\<lambda>t u p.
         if u = ''http://httpbin.org/status/200'' \<and> t = 3
         then Responded (ok_resp [] 0 None) (1 / 10)
         else Raised),
       pgrep = (\<lambda>t p. True),
       randint = (\<lambda>t. t) \<rparr>"

definition world_pings :: world where
  "world_pings =
     \<lparr> http_get = (\<lambda>t u p.
         if u = ''http://httpbin.org/status/200''
         then Responded (ok_resp [] 0 None)
                (if t = 3 then 100 / 1000 else if t = 4 then 120 / 1000 else 110 / 1000)
         else Raised),
       pgrep = (\<lambda>t p. True),
       randint = (\<lambda>t. t) \<rparr>"


definition obfs4_bridges :: "(string list \<times> string) option" where
  "obfs4_bridges = Some ([''Bridge obfs4 1.2.3.4:443 AAAA''], ''obfs4'')"


section \<open>Selection of the best attempt\<close>

lemma max_speed_mem: "max_speed b xs \<in> set (b # xs)"
  by (induction xs arbitrary: b) auto

lemma max_speed_lower: "r_speed b \<le> r_speed (max_speed b xs)"
proof (induction xs arbitrary: b)
  case Nil
  show ?case by simp
next
  case (Cons x xs)
  have "r_speed b \<le> r_speed (if r_speed b < r_speed x then x else b)" by simp
  also have "\<dots> \<le> r_speed (max_speed (if r_speed b < r_speed x then x else b) xs)"
    by (rule Cons.IH)
  finally show ?case by simp
qed

lemma max_speed_ge: "x \<in> set (b # xs) \<Longrightarrow> r_speed x \<le> r_speed (max_speed b xs)"
proof (induction xs arbitrary: b)
  case Nil
  then show ?case by simp
next
  case (Cons y ys)
  let ?b' = "if r_speed b < r_speed y then y else b"
  have step: "max_speed b (y # ys) = max_speed ?b' ys" by simp
  from Cons.prems consider "x = b" | "x = y" | "x \<in> set ys" by auto
  then show ?case
  proof cases
    case 1
    have "r_speed b \<le> r_speed ?b'" by simp
    also have "\<dots> \<le> r_speed (max_speed ?b' ys)" by (rule max_speed_lower)
    finally show ?thesis using 1 step by simp
  next
    case 2
    have "r_speed y \<le> r_speed ?b'" by simp
    also have "\<dots> \<le> r_speed (max_speed ?b' ys)" by (rule max_speed_lower)
    finally show ?thesis using 2 step by simp
  next
    case 3
    then have "x \<in> set (?b' # ys)" by simp
    then have "r_speed x \<le> r_speed (max_speed ?b' ys)" by (rule Cons.IH)
    then show ?thesis using step by simp
  qed
qed

text \<open>
  C1. When the attempts of a call collected at least one result, the call returns a
  result that is among the collected ones and whose speed no collected result exceeds,
  and the instance leaves the call with ip, city, ping and speed taken from that result.
\<close>

theorem find_fastest_selects_max:
  assumes "collected W bd inst ub n t \<noteq> []"
  shows "\<exists>best inst' es.
           find_fastest_ip_for_instance W bd inst ub n t = ((Some best, inst'), es)
         \<and> best \<in> set (collected W bd inst ub n t)
         \<and> (\<forall>r \<in> set (collected W bd inst ub n t). r_speed r \<le> r_speed best)
         \<and> ip inst' = Some (r_ip best) \<and> city inst' = Some (r_city best)
         \<and> ping inst' = Some (r_ping best) \<and> speed inst' = Some (r_speed best)"
proof -
  obtain results es where loop: "attempts_loop W bd inst ub (nat n) t [] = (results, es)"
    by (cases "attempts_loop W bd inst ub (nat n) t []") auto
  with assms obtain r rs where rs: "results = r # rs"
    by (cases results) (auto simp: collected_def)
  let ?best = "max_speed r rs"
  have mem: "?best \<in> set results" using max_speed_mem [of r rs] rs by simp
  have ge: "\<forall>x \<in> set results. r_speed x \<le> r_speed ?best"
    using max_speed_ge [of _ r rs] rs by blast
  show ?thesis
    using loop rs mem ge
    by (simp add: find_fastest_ip_for_instance_def collected_def Let_def)
qed

text \<open>Values of the float operations on the concrete runs.\<close>

lemma fl_0: "fl 0 = 0"
  by (simp add: fl_def)

lemma fl_1: "fl 1 = 1" by code_simp
lemma fl_half: "fl (1 / 2) = 1 / 2" by code_simp
lemma fl_500000: "fl 500000 = 500000" by code_simp
lemma fl_800000: "fl 800000 = 800000" by code_simp
lemma fmul_1: "fmul 1 1000000 = 1000000" by code_simp
lemma fmul_half: "fmul (1 / 2) 1000000 = 500000" by code_simp
lemma ping_250: "py_int (fmul (fl (1 / 4)) 1000) = 250" by code_simp
lemma ping_300: "py_int (fmul (fl (3 / 10)) 1000) = 300" by code_simp
lemma mbps_slow: "py_round (fdiv 500000 1000000) 2 = 1 / 2" by code_simp
lemma mbps_fast: "py_round (fdiv 500000 500000) 2 = 1" by code_simp

lemma length_launch: "length (launch W bd inst ub t) = 8"
  by (simp add: launch_def stop_instance_def create_torrc_def)

lemma strip_addr: "strip ''1.2.3.4'' = ''1.2.3.4''" by code_simp
lemma split_addr: "length (split_chr (CHR ''.'') ''1.2.3.4'') = 4" by code_simp
lemma fmt_addr: "format_ip ''http://ip-api.com/json/{ip}'' ''1.2.3.4'' = ''http://ip-api.com/json/1.2.3.4''" by code_simp
lemma upper_us: "upper ''us'' = ''US''" by code_simp

lemma get_ip_us:
  "get_ip_and_location world_us 9050 t =
     ((Some ''1.2.3.4'', ''US'', JStr ''Dallas'', 250),
      [HttpGet ''http://api.ipify.org'' (Some 9050), HttpGet ''http://ip-api.com/json/1.2.3.4'' None])"
  by (simp add: get_ip_and_location_def ip_services_def location_services_def world_us_def
        ok_resp_def after_def strip_addr split_addr fmt_addr upper_us location_answer_def ping_250)

lemma test_speed_us:
  "test_speed world_us 9050 t =
     (if t < 20 then 1 / 2 else 1, [HttpGet ''http://httpbin.org/bytes/50000'' (Some 9050)])"
  by (simp add: test_speed_def test_data_def world_us_def ok_resp_def after_def
        fl_1 fl_half fl_500000 fmul_1 fmul_half mbps_slow mbps_fast)

lemma collected_us:
  "map r_speed (collected world_us None us_inst False 2 0) = [1 / 2, 1]"
  by (simp add: collected_def eval_nat_numeral attempt_def length_launch us_inst_def
        get_ip_us test_speed_us after_def)

theorem find_fastest_selects_max_witness:
  "collected world_us None us_inst False 2 0 \<noteq> []
   \<and> (\<exists>best inst' es.
         find_fastest_ip_for_instance world_us None us_inst False 2 0 = ((Some best, inst'), es)
       \<and> r_speed best = 1 \<and> speed inst' = Some 1)"
proof -
  have h: "collected world_us None us_inst False 2 0 \<noteq> []"
    using collected_us by auto
  from find_fastest_selects_max [OF h] obtain best inst' es where
    b: "find_fastest_ip_for_instance world_us None us_inst False 2 0 = ((Some best, inst'), es)"
       "best \<in> set (collected world_us None us_inst False 2 0)"
       "\<forall>r \<in> set (collected world_us None us_inst False 2 0). r_speed r \<le> r_speed best"
       "speed inst' = Some (r_speed best)"
    by blast
  have "r_speed best \<in> set (map r_speed (collected world_us None us_inst False 2 0))"
    using b(2) by simp
  moreover have "\<forall>v \<in> set (map r_speed (collected world_us None us_inst False 2 0)). v \<le> r_speed best"
    using b(3) by simp
  ultimately have "r_speed best = 1"
    unfolding collected_us by auto
  with h b(1,4) show ?thesis by auto
qed


section \<open>Order of the fleet ranking\<close>

lemma sorted_keys_ranked:
  "sorted (map (\<lambda>p. (- fst p, snd p)) ps) \<Longrightarrow> ranked ps"
  by (induction ps rule: ranked.induct) auto

lemma test_instance_observed:
  "test_instance W inst t = (Some x, es) \<Longrightarrow> speed x \<noteq> None \<and> ping x \<noteq> None"
  by (auto simp: test_instance_def split: prod.splits option.splits if_splits)

lemma test_loop_observed:
  "test_loop W insts t = ((results, insts'), es) \<Longrightarrow> x \<in> set results
     \<Longrightarrow> speed x \<noteq> None \<and> ping x \<noteq> None"
proof (induction insts arbitrary: t results insts' es)
  case Nil
  then show ?case by simp
next
  case (Cons p rest)
  obtain nm inst where p: "p = (nm, inst)" by (cases p)
  obtain tested es1 where ti: "test_instance W inst t = (tested, es1)"
    by (cases "test_instance W inst t")
  obtain rs ins es2 where tl: "test_loop W rest (t + length es1) = ((rs, ins), es2)"
    by (cases "test_loop W rest (t + length es1)") auto
  from Cons.prems(1) have res: "results = (case tested of None \<Rightarrow> rs | Some i \<Rightarrow> i # rs)"
    by (simp add: p ti tl)
  show ?case
  proof (cases "x \<in> set rs")
    case True
    with tl show ?thesis by (rule Cons.IH)
  next
    case False
    with res Cons.prems(2) have "tested = Some x"
      by (cases tested) auto
    with ti show ?thesis by (auto dest: test_instance_observed)
  qed
qed

lemma ranked_entries:
  "ranked (map (\<lambda>e. (- fst (entry_key e), snd (entry_key e))) (sort_key entry_key xs))"
proof (rule sorted_keys_ranked)
  have "map (\<lambda>p. (- fst p, snd p))
          (map (\<lambda>e. (- fst (entry_key e), snd (entry_key e))) (sort_key entry_key xs))
        = map entry_key (sort_key entry_key xs)"
    by simp
  then show "sorted (map (\<lambda>p. (- fst p, snd p))
          (map (\<lambda>e. (- fst (entry_key e), snd (entry_key e))) (sort_key entry_key xs)))"
    by (simp only: sorted_sort_key)
qed

lemma ranked_insts:
  "ranked (map (\<lambda>e. (- fst (inst_key e), snd (inst_key e))) (sort_key inst_key xs))"
proof (rule sorted_keys_ranked)
  have "map (\<lambda>p. (- fst p, snd p))
          (map (\<lambda>e. (- fst (inst_key e), snd (inst_key e))) (sort_key inst_key xs))
        = map inst_key (sort_key inst_key xs)"
    by simp
  then show "sorted (map (\<lambda>p. (- fst p, snd p))
          (map (\<lambda>e. (- fst (inst_key e), snd (inst_key e))) (sort_key inst_key xs)))"
    by (simp only: sorted_sort_key)
qed

lemma entry_pair: "(\<lambda>e. (- fst (entry_key e), snd (entry_key e))) = (\<lambda>(nm, inst, r). (r_speed r, r_ping r))"
  by (auto simp: entry_key_def fun_eq_iff)

lemma observed_key:
  "speed x \<noteq> None \<Longrightarrow> ping x \<noteq> None
     \<Longrightarrow> observed x = Some (- fst (inst_key x), snd (inst_key x))"
  by (auto simp: observed_def inst_key_def)

text \<open>
  C2. The list that \<open>start_all_instances_with_best_ips\<close> ranks holds exactly the entries
  that the loop over the instances collected, one for each instance with a best result,
  and the list that \<open>test_all_instances\<close> ranks holds exactly the instances that its loop
  collected (each as a permutation, nothing lost and nothing added). Both are in
  descending order of speed, with ascending ping between equal speeds: every adjacent
  pair satisfies the ranking condition.
\<close>

theorem fleet_ranking_sorted:
  "ranked (map (\<lambda>(nm, inst, r). (r_speed r, r_ping r))
             (fst (fst (start_all_instances_with_best_ips W bd n insts t))))
   \<and> mset (fst (fst (start_all_instances_with_best_ips W bd n insts t)))
       = mset (fst (fst (instances_loop W bd (bd \<noteq> None) n insts t)))
   \<and> (\<exists>ps. map observed (fst (fst (test_all_instances W insts t))) = map Some ps \<and> ranked ps)
   \<and> mset (fst (fst (test_all_instances W insts t))) = mset (fst (fst (test_loop W insts t)))"
proof (intro conjI)
  show "ranked (map (\<lambda>(nm, inst, r). (r_speed r, r_ping r))
             (fst (fst (start_all_instances_with_best_ips W bd n insts t))))"
    using ranked_entries
    by (simp add: start_all_instances_with_best_ips_def entry_pair split: prod.splits)
next
  show "mset (fst (fst (start_all_instances_with_best_ips W bd n insts t)))
       = mset (fst (fst (instances_loop W bd (bd \<noteq> None) n insts t)))"
  proof (cases "insts = []")
    case True
    then show ?thesis by (simp add: start_all_instances_with_best_ips_def)
  next
    case False
    then show ?thesis
      by (simp add: start_all_instances_with_best_ips_def split: prod.splits)
  qed
next
  obtain results insts' es where loop: "test_loop W insts t = ((results, insts'), es)"
    by (cases "test_loop W insts t") auto
  have ranking: "fst (fst (test_all_instances W insts t)) = sort_key inst_key results"
    using loop by (simp add: test_all_instances_def)
  let ?ps = "map (\<lambda>e. (- fst (inst_key e), snd (inst_key e))) (sort_key inst_key results)"
  have eq: "map observed (sort_key inst_key results) = map Some ?ps"
    using test_loop_observed [OF loop] by (simp add: observed_key)
  have rk: "ranked ?ps" by (rule ranked_insts)
  show "\<exists>ps. map observed (fst (fst (test_all_instances W insts t))) = map Some ps \<and> ranked ps"
    unfolding ranking by (rule exI [of _ ?ps], rule conjI, rule eq, rule rk)
next
  show "mset (fst (fst (test_all_instances W insts t))) = mset (fst (fst (test_loop W insts t)))"
    by (simp add: test_all_instances_def split: prod.splits)
qed


section \<open>Identity resolution\<close>

lemma length_upper: "length (upper s) = length s"
  by (simp add: upper_def)

lemma upper_Nil: "upper s = [] \<longleftrightarrow> s = []"
  by (simp add: upper_def)

lemma location_answer_None:
  "location_answer service out = None \<longleftrightarrow> \<not> carries_country_code service out"
  by (auto simp: location_answer_def carries_country_code_def length_upper upper_Nil Let_def
      split: outcome.splits option.splits jval.splits)


lemma location_loop_exhausted:
  assumes "\<forall>i<length svcs. \<not> carries_country_code (svcs ! i)
             (http_get W (t + i) (format_ip (url (svcs ! i)) a) None)"
  shows "location_loop W t svcs a pt =
           ((Some a, ''Unknown'', JStr ''Unknown'', pt),
            map (\<lambda>s. HttpGet (format_ip (url s) a) None) svcs)"
  using assms
proof (induction svcs arbitrary: t)
  case Nil
  show ?case by simp
next
  case (Cons s svcs)
  from Cons.prems have first: "location_answer s (http_get W t (format_ip (url s) a) None) = None"
    by (fastforce simp: location_answer_None)
  have "\<forall>i<length svcs. \<not> carries_country_code (svcs ! i)
             (http_get W (t + 1 + i) (format_ip (url (svcs ! i)) a) None)"
  proof (intro allI impI)
    fix i assume "i < length svcs"
    then have "Suc i < length (s # svcs)" by simp
    with Cons.prems have "\<not> carries_country_code ((s # svcs) ! Suc i)
             (http_get W (t + Suc i) (format_ip (url ((s # svcs) ! Suc i)) a) None)"
      by blast
    then show "\<not> carries_country_code (svcs ! i)
             (http_get W (t + 1 + i) (format_ip (url (svcs ! i)) a) None)" by simp
  qed
  then have "location_loop W (t + 1) svcs a pt =
           ((Some a, ''Unknown'', JStr ''Unknown'', pt),
            map (\<lambda>s. HttpGet (format_ip (url s) a) None) svcs)"
    by (rule Cons.IH)
  with first show ?case by (simp add: after_def Let_def)
qed




text \<open>
  What does hold of an exhausted address cascade: when every service raises or answers
  blank text, the resolution fails with no address after the five proxied requests, and
  no geolocation service is asked.
\<close>

lemma ip_loop_blank:
  assumes "\<forall>j<length svcs. blank_reply (http_get W (t + j) (svcs ! j) (Some prt))"
      and "ip0 = None \<or> ip0 = Some []"
  shows "(fst (fst (ip_loop W prt t svcs ip0 pt)) = None
            \<or> fst (fst (ip_loop W prt t svcs ip0 pt)) = Some [])
       \<and> snd (ip_loop W prt t svcs ip0 pt) = map (\<lambda>s. HttpGet s (Some prt)) svcs"
  using assms
proof (induction svcs arbitrary: t ip0 pt)
  case Nil
  then show ?case by simp
next
  case (Cons s svcs)
  from Cons.prems(1) have first: "blank_reply (http_get W t s (Some prt))"
    by fastforce
  have rest: "\<forall>j<length svcs. blank_reply (http_get W (Suc t + j) (svcs ! j) (Some prt))"
  proof (intro allI impI)
    fix j assume "j < length svcs"
    then have "Suc j < length (s # svcs)" by simp
    with Cons.prems(1) have "blank_reply (http_get W (t + Suc j) ((s # svcs) ! Suc j) (Some prt))"
      by blast
    then show "blank_reply (http_get W (Suc t + j) (svcs ! j) (Some prt))" by simp
  qed
  show ?case
  proof (cases "http_get W t s (Some prt)")
    case Raised
    then show ?thesis
      using Cons.IH [OF rest Cons.prems(2), of pt] by (simp add: after_def)
  next
    case (Responded r e)
    with first have blank: "strip (resp_text r) = []" by (simp add: blank_reply_def)
    have "Some [] = None \<or> Some ([]::string) = Some []" by simp
    from Cons.IH [OF rest this, of "py_int (fmul (fl e) 1000)"] show ?thesis
      by (simp add: Responded blank after_def)
  qed
qed

lemma resolve_without_reply:
  assumes "\<forall>j<length ip_services. blank_reply (http_get W (t + j) (ip_services ! j) (Some prt))"
  shows "get_ip_and_location W prt t =
           ((None, ''Error'', JStr ''No IP'', 9999), map (\<lambda>s. HttpGet s (Some prt)) ip_services)"
proof -
  obtain ip0 pt es where ip: "ip_loop W prt t ip_services None 9999 = ((ip0, pt), es)"
    by (cases "ip_loop W prt t ip_services None 9999") auto
  from ip_loop_blank [OF assms, of None 9999] ip
  have "ip0 = None \<or> ip0 = Some []" and "es = map (\<lambda>s. HttpGet s (Some prt)) ip_services"
    by simp_all
  then show ?thesis
    by (auto simp: get_ip_and_location_def ip)
qed

lemma strip_unavailable: "strip ''Service Unavailable'' = ''Service Unavailable''" by code_simp
lemma split_unavailable: "length (split_chr (CHR ''.'') ''Service Unavailable'') = 1" by code_simp
lemma format_unavailable:
  "map (\<lambda>s. format_ip (url s) ''Service Unavailable'') location_services =
     [''http://ip-api.com/json/Service Unavailable'',
      ''https://ipapi.co/Service Unavailable/json/'',
      ''http://ipwho.is/Service Unavailable'',
      ''http://www.geoplugin.net/json.gp?ip=Service Unavailable'']"
  by code_simp

text \<open>
  C3. The run on which the claim fails: every address service answers with an error
  page, none with a dotted quad. The loop leaves the last page text in \<open>ip\<close>, the test
  \<open>if not ip\<close> passes, and all four geolocation services are asked about that text.
\<close>

theorem invalid_reply_reaches_geolocation:
  "get_ip_and_location world_unavailable 9050 0 =
     ((Some ''Service Unavailable'', ''Unknown'', JStr ''Unknown'', 300),
      [HttpGet ''http://api.ipify.org'' (Some 9050),
       HttpGet ''http://checkip.amazonaws.com'' (Some 9050),
       HttpGet ''http://icanhazip.com'' (Some 9050),
       HttpGet ''http://ipecho.net/plain'' (Some 9050),
       HttpGet ''http://myexternalip.com/raw'' (Some 9050),
       HttpGet ''http://ip-api.com/json/Service Unavailable'' None,
       HttpGet ''https://ipapi.co/Service Unavailable/json/'' None,
       HttpGet ''http://ipwho.is/Service Unavailable'' None,
       HttpGet ''http://www.geoplugin.net/json.gp?ip=Service Unavailable'' None])"
proof -
  have ip: "ip_loop world_unavailable 9050 0 ip_services None 9999 =
     ((Some ''Service Unavailable'', 300), map (\<lambda>s. HttpGet s (Some 9050)) ip_services)"
    by (simp add: ip_services_def world_unavailable_def strip_unavailable split_unavailable
          after_def ping_300)
  have geo: "\<And>t. location_loop world_unavailable t location_services ''Service Unavailable'' 300 =
     ((Some ''Service Unavailable'', ''Unknown'', JStr ''Unknown'', 300),
      map (\<lambda>s. HttpGet (format_ip (url s) ''Service Unavailable'') None) location_services)"
    by (rule location_loop_exhausted)
       (simp add: world_unavailable_def carries_country_code_def)
  have len: "length (map (\<lambda>s. HttpGet s (Some (9050::int))) ip_services) = 5"
    by (simp add: ip_services_def)
  have evs: "map (\<lambda>s. HttpGet (format_ip (url s) ''Service Unavailable'') None) location_services
      = map (\<lambda>u. HttpGet u None) (map (\<lambda>s. format_ip (url s) ''Service Unavailable'') location_services)"
    by simp
  show ?thesis
    unfolding get_ip_and_location_def ip
    by (simp add: len geo after_def evs format_unavailable ip_services_def del: map_map)
qed



section \<open>One attempt\<close>

lemma ip_loop_events:
  "e \<in> set (snd (ip_loop W prt t svcs ip0 pt)) \<Longrightarrow> \<exists>s\<in>set svcs. e = HttpGet s (Some prt)"
proof (induction svcs arbitrary: t ip0 pt)
  case Nil
  then show ?case by simp
next
  case (Cons s svcs)
  then show ?case
    by (fastforce simp: after_def Let_def split: outcome.splits if_splits)
qed

lemma location_loop_events:
  "e \<in> set (snd (location_loop W t svcs a pt)) \<Longrightarrow> \<exists>u. e = HttpGet u None"
proof (induction svcs arbitrary: t)
  case Nil
  then show ?case by simp
next
  case (Cons s svcs)
  then show ?case
    by (fastforce simp: after_def Let_def split: option.splits prod.splits)
qed

lemma location_loop_addr: "fst (fst (location_loop W t svcs a pt)) = Some a"
  by (induction svcs arbitrary: t) (auto simp: after_def Let_def split: option.splits)

lemma ip_service_not_speed: "s \<in> set ip_services \<Longrightarrow> \<not> speed_request (HttpGet s (Some prt))"
  by (auto simp: ip_services_def speed_request_def test_data_def status_url_def)

lemma get_ip_events:
  assumes "e \<in> set (snd (get_ip_and_location W prt t))"
  shows "\<not> speed_request e"
proof -
  obtain ip0 pt es where ip: "ip_loop W prt t ip_services None 9999 = ((ip0, pt), es)"
    by (cases "ip_loop W prt t ip_services None 9999") auto
  have es: "\<And>x. x \<in> set es \<Longrightarrow> \<not> speed_request x"
    using ip_loop_events [of _ W prt t ip_services None 9999] ip
    by (auto dest: ip_service_not_speed)
  have geo: "\<And>x a. x \<in> set (snd (location_loop W (t + length es) location_services a pt))
                \<Longrightarrow> \<not> speed_request x"
    by (auto dest!: location_loop_events simp: speed_request_def)
  from assms show ?thesis
    by (auto simp: get_ip_and_location_def ip after_def es geo split: option.splits if_splits)
qed

lemma get_ip_nonempty:
  assumes "fst (get_ip_and_location W prt t) = (Some a, c, ci, p)"
  shows "a \<noteq> []"
proof -
  obtain ip0 pt es where ip: "ip_loop W prt t ip_services None 9999 = ((ip0, pt), es)"
    by (cases "ip_loop W prt t ip_services None 9999") auto
  from assms obtain x where x: "ip0 = Some x" "x \<noteq> []"
      "fst (location_loop W (t + length es) location_services x pt) = (Some a, c, ci, p)"
    by (auto simp: get_ip_and_location_def ip after_def split: option.splits if_splits)
  from x(3) have "fst (fst (location_loop W (t + length es) location_services x pt)) = Some a"
    by simp
  then have "x = a" by (simp add: location_loop_addr)
  with x(2) show ?thesis by simp
qed

lemma launch_events: "e \<in> set (launch W bd inst ub t) \<Longrightarrow> \<not> speed_request e"
  by (auto simp: launch_def stop_instance_def create_torrc_def speed_request_def)

text \<open>
  C4, as amended. When the resolution of an attempt gives no address, or a country
  other than the one of the instance, the attempt leaves \<open>results\<close> as it was (a failed
  attempt is recorded by no dict at all) and performs no request of \<open>test_speed\<close>.
\<close>

theorem mismatch_records_nothing:
  assumes "fst (get_ip_and_location W (port inst) (t + length (launch W bd inst ub t)))
             = (ip0, country0, city0, ping0)"
      and "ip0 = None \<or> country0 \<noteq> country inst"
  shows "fst (attempt W bd inst ub t results) = results
       \<and> (\<forall>e\<in>set (snd (attempt W bd inst ub t results)). \<not> speed_request e)"
proof -
  obtain es2 where g: "get_ip_and_location W (port inst) (t + length (launch W bd inst ub t))
             = ((ip0, country0, city0, ping0), es2)"
    using assms(1) by (cases "get_ip_and_location W (port inst) (t + length (launch W bd inst ub t))") auto
  have es2: "\<And>e. e \<in> set es2 \<Longrightarrow> \<not> speed_request e"
    using get_ip_events [of _ W "port inst" "t + length (launch W bd inst ub t)"] g by simp
  have att: "attempt W bd inst ub t results = (results, launch W bd inst ub t @ es2 @ [Sleep 2])"
    using assms(2) by (auto simp: attempt_def Let_def g split: option.splits)
  show ?thesis
    unfolding att using es2 launch_events [of _ W bd inst ub t]
    by (auto simp: speed_request_def)
qed

lemma strip_5678: "strip ''5.6.7.8'' = ''5.6.7.8''" by code_simp
lemma split_5678: "length (split_chr (CHR ''.'') ''5.6.7.8'') = 4" by code_simp
lemma fmt_5678: "format_ip ''http://ip-api.com/json/{ip}'' ''5.6.7.8'' = ''http://ip-api.com/json/5.6.7.8''" by code_simp
lemma upper_FR: "upper ''FR'' = ''FR''" by code_simp

lemma get_ip_fr:
  "get_ip_and_location world_fr 9050 t =
     ((Some ''5.6.7.8'', ''FR'', JStr ''Paris'', 250),
      [HttpGet ''http://api.ipify.org'' (Some 9050), HttpGet ''http://ip-api.com/json/5.6.7.8'' None])"
  by (simp add: get_ip_and_location_def ip_services_def location_services_def world_fr_def
        ok_resp_def after_def strip_5678 split_5678 fmt_5678 upper_FR location_answer_def ping_250)

lemma test_speed_fr:
  "test_speed world_fr 9050 t = (1 / 2, [HttpGet ''http://httpbin.org/bytes/50000'' (Some 9050)])"
  by (simp add: test_speed_def test_data_def world_fr_def ok_resp_def after_def
        fl_1 fl_500000 fmul_1 mbps_slow)

theorem mismatch_records_nothing_witness:
  "fst (attempt world_fr None us_inst False 0 []) = []
   \<and> filter speed_request (snd (attempt world_fr None us_inst False 0 [])) = []"
proof -
  have h1: "fst (get_ip_and_location world_fr (port us_inst) (0 + length (launch world_fr None us_inst False 0)))
             = (Some ''5.6.7.8'', ''FR'', JStr ''Paris'', 250)"
    by (simp add: us_inst_def get_ip_fr)
  have h2: "Some ''5.6.7.8'' = None \<or> ''FR'' \<noteq> country us_inst"
    by (simp add: us_inst_def)
  from mismatch_records_nothing [OF h1 h2] show ?thesis
    by (simp add: filter_empty_conv)
qed

text \<open>
  C4, as stated, fails: the resolution places the exit in FR, the instance wants US,
  and after the attempt \<open>results\<close> holds no dict, hence none recorded as failed.
\<close>

theorem mismatch_leaves_no_record:
  "fst (snd (fst (get_ip_and_location world_fr (port us_inst) 8))) = ''FR''
   \<and> country us_inst = ''US''
   \<and> fst (attempt world_fr None us_inst False 0 []) = []"
  by (simp add: us_inst_def get_ip_fr attempt_def length_launch)



section \<open>The re-test pass\<close>

lemma test_loop_append:
  "test_loop W (xs @ ys) t =
     (case test_loop W xs t of
        ((r1, i1), e1) \<Rightarrow>
          (case test_loop W ys (t + length e1) of
             ((r2, i2), e2) \<Rightarrow> ((r1 @ r2, i1 @ i2), e1 @ e2)))"
proof (induction xs arbitrary: t)
  case Nil
  show ?case by (simp split: prod.splits)
next
  case (Cons p xs)
  obtain nm inst where p: "p = (nm, inst)" by (cases p)
  obtain tested es where ti: "test_instance W inst t = (tested, es)"
    by (cases "test_instance W inst t")
  show ?case
    by (simp add: p ti Cons.IH add.assoc split: prod.splits option.splits)
qed

lemma test_instance_live:
  assumes "pgrep W t (torrc inst)"
      and "get_ip_and_location W (port inst) (Suc t) = ((Some a, country0, city0, ping0), es1)"
      and "test_speed W (port inst) (Suc t + length es1) = (speed0, es2)"
  shows "test_instance W inst t =
           (Some (inst\<lparr> ip := Some a, city := Some city0, ping := Some ping0, speed := Some speed0 \<rparr>),
            snd (check_instance_running W inst t) @ es1 @ es2)"
proof -
  have "a \<noteq> []" using get_ip_nonempty [of W "port inst" "Suc t" a country0 city0 ping0] assms(2)
    by simp
  with assms show ?thesis
    by (simp add: test_instance_def check_instance_running_def)
qed

text \<open>
  C10. In \<open>test_all_instances\<close>, an instance that is running when its turn comes and
  whose resolution gives an address is overwritten with the resolved address, city and
  ping and the measured speed, and is part of the ranking and of the fleet as the pass
  leaves it. The resolved country plays no part: nothing compares it with the country
  of the instance.
\<close>

theorem retest_ignores_country:
  assumes "test_loop W pre t = ((rs0, ins0), es0)"
      and "pgrep W (t + length es0) (torrc inst)"
      and "get_ip_and_location W (port inst) (Suc (t + length es0))
             = ((Some a, country0, city0, ping0), es1)"
      and "test_speed W (port inst) (Suc (t + length es0) + length es1) = (speed0, es2)"
  shows "inst\<lparr> ip := Some a, city := Some city0, ping := Some ping0, speed := Some speed0 \<rparr>
           \<in> set (fst (fst (test_all_instances W (pre @ (nm, inst) # post) t)))
       \<and> (nm, inst\<lparr> ip := Some a, city := Some city0, ping := Some ping0, speed := Some speed0 \<rparr>)
           \<in> set (snd (fst (test_all_instances W (pre @ (nm, inst) # post) t)))"
proof -
  let ?inst' = "inst\<lparr> ip := Some a, city := Some city0, ping := Some ping0, speed := Some speed0 \<rparr>"
  define es where "es = snd (check_instance_running W inst (t + length es0)) @ es1 @ es2"
  have ti: "test_instance W inst (t + length es0) = (Some ?inst', es)"
    unfolding es_def using assms(2-4) by (rule test_instance_live)
  obtain rs1 ins1 es3 where rest: "test_loop W post (t + length es0 + length es) = ((rs1, ins1), es3)"
    by (cases "test_loop W post (t + length es0 + length es)") auto
  have loop: "test_loop W (pre @ (nm, inst) # post) t =
          ((rs0 @ ?inst' # rs1, ins0 @ (nm, ?inst') # ins1), es0 @ es @ es3)"
    by (simp add: test_loop_append assms(1) ti rest)
  show ?thesis
    by (simp add: test_all_instances_def loop)
qed

theorem retest_ignores_country_witness:
  "country us_inst = ''US''
   \<and> fst (snd (fst (get_ip_and_location world_fr (port us_inst) 1))) = ''FR''
   \<and> us_inst\<lparr> ip := Some ''5.6.7.8'', city := Some (JStr ''Paris''), ping := Some 250,
              speed := Some (1 / 2) \<rparr>
       \<in> set (fst (fst (test_all_instances world_fr [(''tor1'', us_inst)] 0)))"
proof -
  have h1: "test_loop world_fr [] 0 = (([], []), [])" by simp
  have h2: "pgrep world_fr (0 + length ([] :: event list)) (torrc us_inst)"
    by (simp add: world_fr_def)
  have h3: "get_ip_and_location world_fr (port us_inst) (Suc (0 + length ([] :: event list)))
      = ((Some ''5.6.7.8'', ''FR'', JStr ''Paris'', 250),
         [HttpGet ''http://api.ipify.org'' (Some 9050), HttpGet ''http://ip-api.com/json/5.6.7.8'' None])"
    by (simp add: us_inst_def get_ip_fr)
  have h4: "test_speed world_fr (port us_inst)
       (Suc (0 + length ([] :: event list))
        + length [HttpGet ''http://api.ipify.org'' (Some 9050), HttpGet ''http://ip-api.com/json/5.6.7.8'' None])
      = (1 / 2, [HttpGet ''http://httpbin.org/bytes/50000'' (Some 9050)])"
    by (simp add: us_inst_def test_speed_fr)
  from retest_ignores_country [OF h1 h2 h3 h4, of "''tor1''" "[]"]
  have "us_inst\<lparr> ip := Some ''5.6.7.8'', city := Some (JStr ''Paris''), ping := Some 250,
              speed := Some (1 / 2) \<rparr>
       \<in> set (fst (fst (test_all_instances world_fr [(''tor1'', us_inst)] 0)))"
    by simp
  moreover have "country us_inst = ''US''" by (simp add: us_inst_def)
  moreover have "fst (snd (fst (get_ip_and_location world_fr (port us_inst) 1))) = ''FR''"
    by (simp add: us_inst_def get_ip_fr)
  ultimately show ?thesis by blast
qed


section \<open>Throughput measurement\<close>

lemma download_loop_first_ok:
  assumes "i < length tests"
      and "\<forall>j<i. \<not> download_ok (http_get W (t + j) (fst (tests ! j)) (Some prt))"
      and "http_get W (t + i) (fst (tests ! i)) (Some prt) = Responded r d"
      and "status_code r = 200" and "1000 < content_len r" and "0 < fl d"
  shows "download_loop W prt t tests =
           (Some (py_round (fdiv (fl (of_nat (content_len r * 8))) (fmul (fl d) 1000000)) 2),
            map (\<lambda>x. HttpGet (fst x) (Some prt)) (take (Suc i) tests))"
  using assms(1-3)
proof (induction tests arbitrary: t i)
  case Nil
  then show ?case by simp
next
  case (Cons x tests)
  obtain test_url expected_size where x: "x = (test_url, expected_size)" by (cases x)
  show ?case
  proof (cases i)
    case 0
    with Cons.prems assms(4-6) show ?thesis
      by (simp add: x Let_def)
  next
    case (Suc i')
    from Cons.prems(2) Suc have first: "\<not> download_ok (http_get W t test_url (Some prt))"
      using x by fastforce
    have rest: "download_loop W prt (Suc t) tests =
           (Some (py_round (fdiv (fl (of_nat (content_len r * 8))) (fmul (fl d) 1000000)) 2),
            map (\<lambda>x. HttpGet (fst x) (Some prt)) (take (Suc i') tests))"
    proof (rule Cons.IH)
      show "i' < length tests" using Cons.prems(1) Suc by simp
      show "\<forall>j<i'. \<not> download_ok (http_get W (Suc t + j) (fst (tests ! j)) (Some prt))"
      proof (intro allI impI)
        fix j assume "j < i'"
        then have "Suc j < i" using Suc by simp
        with Cons.prems(2)
        have "\<not> download_ok (http_get W (t + Suc j) (fst ((x # tests) ! Suc j)) (Some prt))"
          by blast
        then show "\<not> download_ok (http_get W (Suc t + j) (fst (tests ! j)) (Some prt))" by simp
      qed
      show "http_get W (Suc t + i') (fst (tests ! i')) (Some prt) = Responded r d"
        using Cons.prems(3) Suc by simp
    qed
    from first show ?thesis
      by (auto simp: x download_ok_def Let_def after_def rest Suc split: outcome.splits)
  qed
qed

text \<open>
  C6, as amended. When the download endpoints before some endpoint fail (they raise,
  answer without HTTP success, transfer at most 1000 bytes or measure a duration that is
  not positive) and that endpoint answers with HTTP success, more than 1000 bytes and a
  positive measured duration, all within the range of finite doubles, \<open>test_speed\<close>
  returns the bytes times 8 over the duration times 1000000, computed in doubles and
  rounded to two decimals as \<open>round\<close> does, after exactly these download requests: the
  fallback is not invoked. In particular, 100000 bytes in 0.5 s at the third endpoint
  give the double 1.6.
\<close>

theorem first_download_decides:
  assumes "i < length test_data"
      and "\<forall>j<i. \<not> download_ok (http_get W (t + j) (fst (test_data ! j)) (Some prt))"
      and "http_get W (t + i) (fst (test_data ! i)) (Some prt) = Responded r d"
      and "status_code r = 200" and "1000 < content_len r" and "0 < fl d"
      and "transfer_finite r d"
  shows "test_speed W prt t =
           (py_round (fdiv (fl (of_nat (content_len r * 8))) (fmul (fl d) 1000000)) 2,
            map (\<lambda>x. HttpGet (fst x) (Some prt)) (take (Suc i) test_data))
       \<and> HttpGet status_url (Some prt) \<notin> set (snd (test_speed W prt t))"
proof -
  have dl: "download_loop W prt t test_data =
           (Some (py_round (fdiv (fl (of_nat (content_len r * 8))) (fmul (fl d) 1000000)) 2),
            map (\<lambda>x. HttpGet (fst x) (Some prt)) (take (Suc i) test_data))"
    using assms(1-6) by (rule download_loop_first_ok)
  have ts: "test_speed W prt t =
           (py_round (fdiv (fl (of_nat (content_len r * 8))) (fmul (fl d) 1000000)) 2,
            map (\<lambda>x. HttpGet (fst x) (Some prt)) (take (Suc i) test_data))"
    by (simp add: test_speed_def dl)
  have "status_url \<notin> fst ` set test_data"
    by (simp add: test_data_def status_url_def)
  then have "HttpGet status_url (Some prt)
               \<notin> set (map (\<lambda>x. HttpGet (fst x) (Some prt)) (take (Suc i) test_data))"
    by (auto dest: in_set_takeD)
  with ts show ?thesis by simp
qed

lemma fdiv_third: "fdiv 800000 500000 = fl (8 / 5)" by code_simp
lemma mbps_third: "py_round (fl (8 / 5)) 2 = fl (8 / 5)" by code_simp
lemma fl_8_5: "fl (8 / 5) = 3602879701896397 / 2251799813685248" by code_simp

lemma finite_third: "finite_double (fl (8 / 5))"
  by (simp add: finite_double_def fl_8_5)

lemma finite_dyadic: "finite_double (1 / 2) \<and> finite_double 800000 \<and> finite_double 500000"
  by (simp add: finite_double_def)

theorem first_download_decides_witness:
  "test_speed world_third 9050 0 =
     (fl (8 / 5),
      [HttpGet ''http://httpbin.org/bytes/50000'' (Some 9050),
       HttpGet ''http://httpbin.org/bytes/25000'' (Some 9050),
       HttpGet ''http://speedtest.ftp.otenet.gr/files/test100k.db'' (Some 9050)])
   \<and> HttpGet status_url (Some 9050) \<notin> set (snd (test_speed world_third 9050 0))"
proof -
  let ?r = "ok_resp [] 100000 None"
  have h1: "2 < length test_data" by (simp add: test_data_def)
  have h2: "\<forall>j<2. \<not> download_ok (http_get world_third (0 + j) (fst (test_data ! j)) (Some 9050))"
  proof (intro allI impI)
    fix j :: nat
    assume "j < 2"
    then have "j = 0 \<or> j = 1" by auto
    then show "\<not> download_ok (http_get world_third (0 + j) (fst (test_data ! j)) (Some 9050))"
      by (auto simp: test_data_def world_third_def download_ok_def)
  qed
  have h3: "http_get world_third (0 + 2) (fst (test_data ! 2)) (Some 9050) = Responded ?r (1 / 2)"
    by (simp add: test_data_def world_third_def)
  have h4: "status_code ?r = 200" by (simp add: ok_resp_def)
  have h5: "1000 < content_len ?r" by (simp add: ok_resp_def)
  have h6: "0 < fl (1 / 2)" by (simp add: fl_half)
  have h7: "transfer_finite ?r (1 / 2)"
    using finite_dyadic finite_third
    by (simp add: transfer_finite_def ok_resp_def fl_half fl_800000 fmul_half fdiv_third)
  have v: "py_round (fdiv (fl (of_nat (content_len ?r * 8))) (fmul (fl (1 / 2)) 1000000)) 2
             = fl (8 / 5)"
    by (simp add: ok_resp_def fl_half fl_800000 fmul_half fdiv_third mbps_third)
  from first_download_decides [OF h1 h2 h3 h4 h5 h6 h7] show ?thesis
    unfolding v by (simp add: test_data_def status_url_def)
qed

text \<open>
  The rounding is the one of doubles: 334375 bytes in one second are 2.675 Mbps, held as
  a double just below 2.675, and \<open>round\<close> gives 2.67; 25000 bytes in eight seconds are
  0.025 Mbps, held as a double just above, and \<open>round\<close> gives 0.03.
\<close>

lemma round_below_tie:
  "py_round (fdiv (fl (of_nat (334375 * 8))) (fmul (fl 1) 1000000)) 2 = fl (267 / 100)"
proof -
  have "py_round (fdiv (fl 2675000) (fmul (fl 1) 1000000)) 2 = fl (267 / 100)" by code_simp
  then show ?thesis by simp
qed

lemma round_above_tie:
  "py_round (fdiv (fl (of_nat (25000 * 8))) (fmul (fl 8) 1000000)) 2 = fl (3 / 100)"
proof -
  have "py_round (fdiv (fl 200000) (fmul (fl 8) 1000000)) 2 = fl (3 / 100)" by code_simp
  then show ?thesis by simp
qed

lemma snd_fallback_speed: "snd (fallback_speed W prt t) = snd (ping_loop W prt t 3 [])"
  by (simp add: fallback_speed_def Let_def split: prod.splits option.splits)

text \<open>
  C6, as stated, fails: the third endpoint answers with HTTP success and 100000 bytes,
  but the measured duration is zero, the guard \<open>download_time > 0\<close> rejects the answer
  and the fallback issues its status checks.
\<close>

theorem zero_duration_falls_back:
  "http_get world_zero 2 (fst (test_data ! 2)) (Some 9050) = Responded (ok_resp [] 100000 None) 0
   \<and> status_code (ok_resp [] 100000 None) = 200
   \<and> 1000 < content_len (ok_resp [] 100000 None)
   \<and> HttpGet status_url (Some 9050) \<in> set (snd (test_speed world_zero 9050 0))"
proof -
  have dl: "fst (download_loop world_zero 9050 0 test_data) = None
            \<and> length (snd (download_loop world_zero 9050 0 test_data)) = 3"
    by (simp add: test_data_def world_zero_def ok_resp_def after_def fl_0)
  have pl: "HttpGet status_url (Some 9050) \<in> set (snd (ping_loop world_zero 9050 3 3 []))"
    by (simp add: numeral_3_eq_3 world_zero_def ok_resp_def after_def status_url_def
          split: outcome.splits)
  obtain es where es: "download_loop world_zero 9050 0 test_data = (None, es)" "length es = 3"
    using dl by (cases "download_loop world_zero 9050 0 test_data") auto
  have "HttpGet status_url (Some 9050) \<in> set (snd (test_speed world_zero 9050 0))"
    using pl by (simp add: test_speed_def es after_def snd_fallback_speed)
  then show ?thesis
    by (simp add: test_data_def world_zero_def ok_resp_def)
qed

text \<open>
  The fallback on three status checks of 100, 120 and 110 ms: the average is 110 ms and
  the estimate is the double 9.1.
\<close>

lemma ping_100: "fmul (fl (1 / 10)) 1000 = 100" by code_simp
lemma ping_120: "fmul (fl (3 / 25)) 1000 = 120" by code_simp
lemma ping_110: "fmul (fl (11 / 100)) 1000 = 110" by code_simp
lemma sum_pings: "fadd (fadd (fadd 0 100) 120) 110 = 330" by code_simp
lemma avg_pings: "fdiv 330 3 = 110" by code_simp
lemma scaled_pings: "fdiv 110 100 \<noteq> 0" by code_simp
lemma est_pings: "py_round (max (fl (1 / 10)) (fdiv 10 (fdiv 110 100))) 1 = fl (91 / 10)"
  by code_simp

lemma fallback_three_pings:
  "test_speed world_pings 9050 0 =
     (fl (91 / 10),
      [HttpGet ''http://httpbin.org/bytes/50000'' (Some 9050),
       HttpGet ''http://httpbin.org/bytes/25000'' (Some 9050),
       HttpGet ''http://speedtest.ftp.otenet.gr/files/test100k.db'' (Some 9050),
       HttpGet ''http://httpbin.org/status/200'' (Some 9050),
       HttpGet ''http://httpbin.org/status/200'' (Some 9050),
       HttpGet ''http://httpbin.org/status/200'' (Some 9050)])"
  using est_pings scaled_pings
  by (simp add: test_speed_def test_data_def world_pings_def ok_resp_def after_def
        fallback_speed_def status_url_def numeral_3_eq_3 Let_def
        ping_100 ping_120 ping_110 sum_pings avg_pings)

text \<open>
  C7. The run on which the claim fails: every download raises, the first status check
  succeeds in 100 ms and the second raises. The exception leaves the one \<open>try\<close> around
  the whole fallback, the collected latency is dropped and the measurement is zero.
\<close>

theorem raised_status_check_gives_zero:
  "test_speed world_flaky 9050 0 =
     (0,
      [HttpGet ''http://httpbin.org/bytes/50000'' (Some 9050),
       HttpGet ''http://httpbin.org/bytes/25000'' (Some 9050),
       HttpGet ''http://speedtest.ftp.otenet.gr/files/test100k.db'' (Some 9050),
       HttpGet ''http://httpbin.org/status/200'' (Some 9050),
       HttpGet ''http://httpbin.org/status/200'' (Some 9050)])"
  by (simp add: test_speed_def test_data_def world_flaky_def ok_resp_def after_def
        fallback_speed_def status_url_def numeral_3_eq_3)


section \<open>Bridge parsing\<close>


lemma set_strip: "set (strip s) \<subseteq> set s"
proof -
  have "set (strip s) \<subseteq> set (dropWhile is_space s)"
    unfolding strip_def using set_dropWhileD [of _ is_space "rev (dropWhile is_space s)"]
    by auto
  also have "\<dots> \<subseteq> set s" using set_dropWhileD [of _ is_space s] by auto
  finally show ?thesis .
qed


lemma split_chr_nonempty: "split_chr sep s \<noteq> []"
  by (induction s) (auto split: list.splits)

lemma split_chr_pieces: "\<Union> (set ` set (split_chr sep s)) = set s - {sep}"
proof (induction s)
  case Nil
  show ?case by simp
next
  case (Cons c cs)
  show ?case
  proof (cases "c = sep")
    case True
    with Cons show ?thesis by auto
  next
    case False
    obtain w ws where sp: "split_chr sep cs = w # ws"
      using split_chr_nonempty [of sep cs] by (cases "split_chr sep cs") auto
    have "\<Union> (set ` set (split_chr sep (c # cs))) = insert c (\<Union> (set ` set (split_chr sep cs)))"
      using False by (simp add: sp)
    also have "\<dots> = insert c (set cs - {sep})" by (simp only: Cons.IH)
    also have "\<dots> = set (c # cs) - {sep}" using False by auto
    finally show ?thesis .
  qed
qed




lemma fst_bridge_loop:
  "fst (bridge_loop lines bl bt) = bl @ map with_bridge_prefix lines"
  by (induction lines arbitrary: bl bt) (simp_all add: Let_def)








section \<open>Configuration text\<close>

lemma split_chr_line:
  "sep \<notin> set l \<Longrightarrow> split_chr sep (l @ sep # rest) = l # split_chr sep rest"
  by (induction l) auto

lemma split_chr_unlines:
  "\<forall>l\<in>set ls. NL \<notin> set l \<Longrightarrow> split_chr NL (unlines ls) = ls @ [[]]"
proof (induction ls)
  case Nil
  show ?case by (simp add: unlines_def)
next
  case (Cons l ls)
  then have "split_chr NL (unlines ls) = ls @ [[]]" by simp
  moreover have "unlines (l # ls) = l @ NL # unlines ls" by (simp add: unlines_def)
  moreover have "NL \<notin> set l" using Cons.prems by simp
  ultimately show ?case by (simp add: split_chr_line)
qed

lemma startswith_Nil: "startswith [] (kw @ '' '') = False"
  by (cases kw) auto

lemma directives_unlines:
  assumes "\<forall>l\<in>set ls. NL \<notin> set l"
  shows "directives kw (unlines ls) = filter (\<lambda>l. startswith l (kw @ '' '')) ls"
  by (simp add: directives_def split_chr_unlines [OF assms] startswith_Nil)

lemma foldl_lines: "foldl (\<lambda>config bridge. config @ bridge @ [NL]) c bs = c @ unlines bs"
  by (induction bs arbitrary: c) (simp_all add: unlines_def)

lemma unlines_append: "unlines (xs @ ys) = unlines xs @ unlines ys"
  by (simp add: unlines_def)

lemma unlines_Cons: "unlines (l # ls) = l @ NL # unlines ls"
  by (simp add: unlines_def)

lemma unlines_Nil: "unlines [] = []"
  by (simp add: unlines_def)

lemma torrc_config_lines:
  "torrc_config inst ub bd cp = unlines (torrc_lines inst ub bd cp)"
proof (cases ub)
  case False
  then show ?thesis
    unfolding torrc_config_def torrc_lines_def bridge_section_def
    by (simp add: unlines_Cons unlines_Nil)
next
  case True
  show ?thesis
  proof (cases bd)
    case None
    with True show ?thesis
      unfolding torrc_config_def torrc_lines_def bridge_section_def
      by (simp add: unlines_Cons unlines_Nil)
  next
    case (Some p)
    obtain ls ty where p: "p = (ls, ty)" by (cases p)
    show ?thesis
      unfolding torrc_config_def torrc_lines_def bridge_section_def plugin_lines_def True Some p
      by (simp add: foldl_lines unlines_append unlines_Cons unlines_Nil)
  qed
qed

lemma digit_not_NL: "n < 10 \<Longrightarrow> char_of (48 + n) \<noteq> NL"
  for n :: nat
proof
  assume n: "n < 10" and eq: "char_of (48 + n) = NL"
  from eq have "of_char (char_of (48 + n)) = (of_char NL :: nat)" by simp
  then have "(48 + n) mod 256 = 10" by (simp add: of_char_of)
  with n show False by simp
qed

lemma NL_str_nat: "NL \<notin> set (str_nat n)"
proof (induction n rule: str_nat.induct)
  case (1 n)
  show ?case
  proof (cases "n < 10")
    case True
    then show ?thesis using digit_not_NL [of n] by (subst str_nat.simps) auto
  next
    case False
    have "n mod 10 < 10" by simp
    then have "char_of (48 + n mod 10) \<noteq> NL" by (rule digit_not_NL)
    with False 1 show ?thesis by (subst str_nat.simps) auto
  qed
qed

lemma NL_str_int: "NL \<notin> set (str_int i)"
  by (simp add: str_int_def NL_str_nat)

lemma plugin_lines_NL: "l \<in> set (plugin_lines ty) \<Longrightarrow> NL \<notin> set l"
  by (auto simp: plugin_lines_def split: if_splits)

lemma torrc_lines_NL:
  assumes "NL \<notin> set (data_dir inst)" and "NL \<notin> set (country inst)" and "bridge_data_ok bd"
  shows "\<forall>l\<in>set (torrc_lines inst ub bd cp). NL \<notin> set l"
proof -
  have "\<forall>l\<in>set (bridge_section ub bd). NL \<notin> set l"
    using assms(3)
    by (auto simp: bridge_section_def bridge_data_ok_def list_all_iff
             dest: plugin_lines_NL split: bool.splits option.splits)
  with assms(1,2) show ?thesis
    by (auto simp: torrc_lines_def NL_str_int)
qed


lemma startswith_head: "startswith l (p # ps) \<Longrightarrow> startswith l (q # qs) \<Longrightarrow> p = q"
  by (cases l) auto

lemma bridge_lines_other:
  assumes "list_all (\<lambda>l. startswith l ''Bridge'' \<and> NL \<notin> set l) ls" and "q \<noteq> CHR ''B''"
  shows "filter (\<lambda>l. startswith l (q # qs)) ls = []"
proof -
  have "\<not> startswith l (q # qs)" if "l \<in> set ls" for l
  proof
    assume "startswith l (q # qs)"
    moreover have "startswith l ''Bridge''" using assms(1) that by (simp add: list_all_iff)
    ultimately show False using assms(2) by (auto dest: startswith_head)
  qed
  then show ?thesis by (simp add: filter_empty_conv)
qed

lemma plugin_lines_filter:
  "filter (\<lambda>l. startswith l ''ClientTransportPlugin '') (plugin_lines ty) = plugin_lines ty"
  by (simp add: plugin_lines_def)

lemma plugin_lines_other:
  "q \<noteq> CHR ''C'' \<Longrightarrow> filter (\<lambda>l. startswith l (q # qs)) (plugin_lines ty) = []"
  by (simp add: plugin_lines_def)

lemma plugin_lines_known:
  "plugin_lines ty \<noteq> [] \<longleftrightarrow> ty \<in> {''obfs4'', ''snowflake'', ''meek-azure'', ''webtunnel''}"
  by (simp add: plugin_lines_def)

lemma bridge_section_plugin:
  assumes "bridge_data_ok bd"
  shows "filter (\<lambda>l. startswith l ''ClientTransportPlugin '') (bridge_section ub bd) =
           (case (ub, bd) of (True, Some (ls, ty)) \<Rightarrow> plugin_lines ty | _ \<Rightarrow> [])"
proof (cases "\<exists>ls ty. ub \<and> bd = Some (ls, ty)")
  case True
  then obtain ls ty where b: "ub" "bd = Some (ls, ty)" by blast
  with assms have ok: "list_all (\<lambda>l. startswith l ''Bridge'' \<and> NL \<notin> set l) ls"
    by (simp add: bridge_data_ok_def)
  have "filter (\<lambda>l. startswith l ''ClientTransportPlugin '') ls = []"
    using bridge_lines_other [OF ok, of "CHR ''C''" "''lientTransportPlugin ''"] by simp
  then show ?thesis
    by (simp add: bridge_section_def b plugin_lines_filter)
next
  case False
  then show ?thesis
    by (auto simp: bridge_section_def split: bool.splits option.splits)
qed

lemma bridge_section_other:
  assumes "bridge_data_ok bd" and "q \<noteq> CHR ''B''" and "q \<noteq> CHR ''C''" and "q \<noteq> CHR ''U''"
  shows "filter (\<lambda>l. startswith l (q # qs)) (bridge_section ub bd) = []"
proof (cases "\<exists>ls ty. ub \<and> bd = Some (ls, ty)")
  case True
  then obtain ls ty where b: "ub" "bd = Some (ls, ty)" by blast
  with assms(1) have ok: "list_all (\<lambda>l. startswith l ''Bridge'' \<and> NL \<notin> set l) ls"
    by (simp add: bridge_data_ok_def)
  show ?thesis
    using assms(2-4)
    by (simp add: bridge_section_def b plugin_lines_other bridge_lines_other [OF ok])
next
  case False
  then show ?thesis
    by (auto simp: bridge_section_def split: bool.splits option.splits)
qed

lemma bridge_section_timeout:
  assumes "bridge_data_ok bd"
  shows "filter (\<lambda>l. startswith l ''CircuitBuildTimeout '') (bridge_section ub bd) = []"
proof (cases "\<exists>ls ty. ub \<and> bd = Some (ls, ty)")
  case True
  then obtain ls ty where b: "ub" "bd = Some (ls, ty)" by blast
  with assms have ok: "list_all (\<lambda>l. startswith l ''Bridge'' \<and> NL \<notin> set l) ls"
    by (simp add: bridge_data_ok_def)
  have "filter (\<lambda>l. startswith l ''CircuitBuildTimeout '') ls = []"
    using bridge_lines_other [OF ok, of "CHR ''C''" "''ircuitBuildTimeout ''"] by simp
  moreover have "filter (\<lambda>l. startswith l ''CircuitBuildTimeout '') (plugin_lines ty) = []"
    by (simp add: plugin_lines_def)
  ultimately show ?thesis
    by (simp add: bridge_section_def b)
next
  case False
  then show ?thesis
    by (auto simp: bridge_section_def split: bool.splits option.splits)
qed

text \<open>
  C5. For an instance whose data directory and country hold no newline, and bridge data
  of the shape that \<open>parse_bridge_input\<close> produces, the configuration text has exactly
  one \<open>ExitNodes\<close> directive, naming the country of the instance; it has a
  \<open>ClientTransportPlugin\<close> directive if and only if bridges are in use, bridge data is
  present and its type is obfs4, snowflake, meek-azure or webtunnel; and its one
  \<open>CircuitBuildTimeout\<close> directive says 120 when bridges are in use and 60 otherwise.
\<close>

theorem torrc_config_directives:
  assumes "NL \<notin> set (data_dir inst)" and "NL \<notin> set (country inst)" and "bridge_data_ok bd"
  shows "directives ''ExitNodes'' (torrc_config inst ub bd cp) = [''ExitNodes {'' @ country inst @ ''}'']
       \<and> (directives ''ClientTransportPlugin'' (torrc_config inst ub bd cp) \<noteq> []
            \<longleftrightarrow> ub \<and> (\<exists>ls ty. bd = Some (ls, ty)
                        \<and> ty \<in> {''obfs4'', ''snowflake'', ''meek-azure'', ''webtunnel''}))
       \<and> directives ''CircuitBuildTimeout'' (torrc_config inst ub bd cp)
            = [''CircuitBuildTimeout '' @ (if ub then ''120'' else ''60'')]"
proof -
  have nl: "\<forall>l\<in>set (torrc_lines inst ub bd cp). NL \<notin> set l"
    using assms by (rule torrc_lines_NL)
  have dir: "directives kw (torrc_config inst ub bd cp)
               = filter (\<lambda>l. startswith l (kw @ '' '')) (torrc_lines inst ub bd cp)" for kw
    unfolding torrc_config_lines by (rule directives_unlines [OF nl])
  have exit_nodes: "directives ''ExitNodes'' (torrc_config inst ub bd cp)
                      = [''ExitNodes {'' @ country inst @ ''}'']"
    using bridge_section_other [OF assms(3), of "CHR ''E''" "''xitNodes ''" ub]
    by (simp add: dir torrc_lines_def)
  have timeout: "directives ''CircuitBuildTimeout'' (torrc_config inst ub bd cp)
                   = [''CircuitBuildTimeout '' @ (if ub then ''120'' else ''60'')]"
    using bridge_section_timeout [OF assms(3), of ub]
    by (simp add: dir torrc_lines_def)
  have plugin: "directives ''ClientTransportPlugin'' (torrc_config inst ub bd cp)
                  = (case (ub, bd) of (True, Some (ls, ty)) \<Rightarrow> plugin_lines ty | _ \<Rightarrow> [])"
    using bridge_section_plugin [OF assms(3), of ub]
    by (simp add: dir torrc_lines_def)
  have "directives ''ClientTransportPlugin'' (torrc_config inst ub bd cp) \<noteq> []
            \<longleftrightarrow> ub \<and> (\<exists>ls ty. bd = Some (ls, ty)
                        \<and> ty \<in> {''obfs4'', ''snowflake'', ''meek-azure'', ''webtunnel''})"
    unfolding plugin
    by (auto simp: plugin_lines_known split: bool.splits option.splits)
  with exit_nodes timeout show ?thesis by blast
qed


lemma obfs4_bridges_ok: "bridge_data_ok obfs4_bridges"
  by (simp add: bridge_data_ok_def obfs4_bridges_def)

theorem torrc_config_directives_witness:
  "directives ''ExitNodes'' (torrc_config us_inst True obfs4_bridges 20) = [''ExitNodes {US}'']
   \<and> directives ''ClientTransportPlugin'' (torrc_config us_inst True obfs4_bridges 20) \<noteq> []
   \<and> directives ''CircuitBuildTimeout'' (torrc_config us_inst True obfs4_bridges 20)
        = [''CircuitBuildTimeout 120'']
   \<and> directives ''ClientTransportPlugin'' (torrc_config us_inst False None 20) = []
   \<and> directives ''CircuitBuildTimeout'' (torrc_config us_inst False None 20)
        = [''CircuitBuildTimeout 60'']"
proof -
  have h1: "NL \<notin> set (data_dir us_inst)" by (simp add: us_inst_def)
  have h2: "NL \<notin> set (country us_inst)" by (simp add: us_inst_def)
  have h3: "bridge_data_ok None" by (simp add: bridge_data_ok_def)
  have c: "country us_inst = ''US''" by (simp add: us_inst_def)
  from torrc_config_directives [OF h1 h2 obfs4_bridges_ok, of True 20]
       torrc_config_directives [OF h1 h2 h3, of False 20]
  show ?thesis
    by (simp add: c obfs4_bridges_def)
qed

lemma split_chr_no_sep: "l \<in> set (split_chr sep s) \<Longrightarrow> sep \<notin> set l"
  using split_chr_pieces [of sep s] by blast

lemma input_lines_NL: "l \<in> set (input_lines s) \<Longrightarrow> NL \<notin> set l"
  using set_strip split_chr_no_sep by (fastforce simp: input_lines_def)

lemma with_bridge_prefix_ok:
  "NL \<notin> set l \<Longrightarrow> startswith (with_bridge_prefix l) ''Bridge'' \<and> NL \<notin> set (with_bridge_prefix l)"
  by (simp add: with_bridge_prefix_def)

lemma parse_bridge_input_lines:
  assumes "parse_bridge_input k s = Some (ls, ty)"
  shows "ls = map with_bridge_prefix (input_lines s)"
proof -
  obtain bl bt where loop: "bridge_loop (input_lines s) [] [] = (bl, bt)"
    by (cases "bridge_loop (input_lines s) [] []")
  have "bl = map with_bridge_prefix (input_lines s)"
    using fst_bridge_loop [of "input_lines s" "[]" "[]"] loop by simp
  moreover from assms have "ls = bl"
    by (auto simp: parse_bridge_input_def loop split: if_splits)
  ultimately show ?thesis by simp
qed

lemma parse_bridge_input_ok: "bridge_data_ok (parse_bridge_input k s)"
proof (cases "parse_bridge_input k s")
  case None
  then show ?thesis by (simp add: bridge_data_ok_def)
next
  case (Some p)
  obtain ls ty where p: "p = (ls, ty)" by (cases p)
  have ls: "ls = map with_bridge_prefix (input_lines s)"
    using Some p by (auto dest: parse_bridge_input_lines)
  show ?thesis
    by (auto simp: Some p ls bridge_data_ok_def list_all_iff dest: input_lines_NL with_bridge_prefix_ok)
qed

lemma create_torrc_file:
  "\<exists>cp. 15 \<le> cp \<and> cp \<le> 45 \<and>
     create_torrc W bd inst ub t =
       [MkDir (data_dir inst), WriteFile (torrc inst) (torrc_config inst ub bd cp)]"
proof -
  define cp where "cp = 15 + int (randint W t mod 31)"
  have "randint W t mod 31 < 31" by simp
  then have "15 \<le> cp" and "cp \<le> 45" by (simp_all add: cp_def)
  moreover have "create_torrc W bd inst ub t =
       [MkDir (data_dir inst), WriteFile (torrc inst) (torrc_config inst ub bd cp)]"
    by (simp add: create_torrc_def cp_def)
  ultimately show ?thesis by blast
qed

end
